theory Spec2Isabelle
  imports Complex_Main
begin

section \<open>JavaScript numbers\<close>

text \<open>
  The class \<^verbatim>\<open>HandPipeline\<close> of \<^verbatim>\<open>src/handpose/handpipeline.js\<close> computes with
  JavaScript numbers. They are modelled as exact reals extended with the two infinities
  and NaN: rounding, overflow and the sign of zero are not modelled. \<open>Undefined\<close> is what
  reading an array past its end yields; arithmetic and comparisons treat it as NaN.
\<close>

datatype jsnum = Fin real | PosInf | NegInf | NaN | Undefined

fun is_number :: "jsnum \<Rightarrow> bool" where
  "is_number NaN = False"
| "is_number Undefined = False"
| "is_number _ = True"

fun js_neg :: "jsnum \<Rightarrow> jsnum" where
  "js_neg (Fin a) = Fin (- a)"
| "js_neg PosInf = NegInf"
| "js_neg NegInf = PosInf"
| "js_neg _ = NaN"

fun js_add :: "jsnum \<Rightarrow> jsnum \<Rightarrow> jsnum" where
  "js_add (Fin a) (Fin b) = Fin (a + b)"
| "js_add (Fin a) PosInf = PosInf"
| "js_add (Fin a) NegInf = NegInf"
| "js_add PosInf (Fin b) = PosInf"
| "js_add PosInf PosInf = PosInf"
| "js_add NegInf (Fin b) = NegInf"
| "js_add NegInf NegInf = NegInf"
| "js_add _ _ = NaN"

definition js_sub :: "jsnum \<Rightarrow> jsnum \<Rightarrow> jsnum" where
  "js_sub a b = js_add a (js_neg b)"

fun js_mul :: "jsnum \<Rightarrow> jsnum \<Rightarrow> jsnum" where
  "js_mul (Fin a) (Fin b) = Fin (a * b)"
| "js_mul (Fin a) PosInf = (if a = 0 then NaN else if 0 < a then PosInf else NegInf)"
| "js_mul (Fin a) NegInf = (if a = 0 then NaN else if 0 < a then NegInf else PosInf)"
| "js_mul PosInf (Fin b) = (if b = 0 then NaN else if 0 < b then PosInf else NegInf)"
| "js_mul NegInf (Fin b) = (if b = 0 then NaN else if 0 < b then NegInf else PosInf)"
| "js_mul PosInf PosInf = PosInf"
| "js_mul PosInf NegInf = NegInf"
| "js_mul NegInf PosInf = NegInf"
| "js_mul NegInf NegInf = PosInf"
| "js_mul _ _ = NaN"

fun js_div :: "jsnum \<Rightarrow> jsnum \<Rightarrow> jsnum" where
  "js_div (Fin a) (Fin b) =
     (if b = 0 then (if a = 0 then NaN else if 0 < a then PosInf else NegInf)
      else Fin (a / b))"
| "js_div (Fin a) PosInf = Fin 0"
| "js_div (Fin a) NegInf = Fin 0"
| "js_div PosInf (Fin b) = (if 0 \<le> b then PosInf else NegInf)"
| "js_div NegInf (Fin b) = (if 0 \<le> b then NegInf else PosInf)"
| "js_div _ _ = NaN"

text \<open>The comparisons \<^verbatim>\<open>a > b\<close> and \<^verbatim>\<open>a >= b\<close>: false as soon as one side is NaN.\<close>

fun js_gt :: "jsnum \<Rightarrow> jsnum \<Rightarrow> bool" where
  "js_gt (Fin a) (Fin b) = (b < a)"
| "js_gt PosInf (Fin b) = True"
| "js_gt PosInf NegInf = True"
| "js_gt (Fin a) NegInf = True"
| "js_gt _ _ = False"

fun js_ge :: "jsnum \<Rightarrow> jsnum \<Rightarrow> bool" where
  "js_ge (Fin a) (Fin b) = (b \<le> a)"
| "js_ge PosInf (Fin b) = True"
| "js_ge PosInf PosInf = True"
| "js_ge PosInf NegInf = True"
| "js_ge (Fin a) NegInf = True"
| "js_ge NegInf NegInf = True"
| "js_ge _ _ = False"

definition js_le :: "jsnum \<Rightarrow> jsnum \<Rightarrow> bool" where
  "js_le a b = js_ge b a"

text \<open>
  \<^verbatim>\<open>Math.max(...xs)\<close> and \<^verbatim>\<open>Math.min(...xs)\<close>: the greatest and the least argument,
  NaN as soon as one argument is not a number, and \<open>-Infinity\<close> and \<open>Infinity\<close> when
  there is no argument.
\<close>

definition js_max2 :: "jsnum \<Rightarrow> jsnum \<Rightarrow> jsnum" where
  "js_max2 a b = (if is_number a \<and> is_number b then (if js_ge a b then a else b) else NaN)"

definition js_min2 :: "jsnum \<Rightarrow> jsnum \<Rightarrow> jsnum" where
  "js_min2 a b = (if is_number a \<and> is_number b then (if js_ge b a then a else b) else NaN)"

definition Math_max :: "jsnum list \<Rightarrow> jsnum" where
  "Math_max xs = foldl js_max2 NegInf xs"

definition Math_min :: "jsnum list \<Rightarrow> jsnum" where
  "Math_min xs = foldl js_min2 PosInf xs"

section \<open>Points, boxes and the tracker state\<close>

text \<open>
  A point, a landmark and a matrix row are arrays of numbers; \<open>idx p k\<close> is \<^verbatim>\<open>p[k]\<close>.
\<close>

type_synonym point = "jsnum list"

definition idx :: "point \<Rightarrow> nat \<Rightarrow> jsnum" where
  "idx p k = (if k < length p then p ! k else Undefined)"

text \<open>
  \<open>elem_at xs k\<close> is \<^verbatim>\<open>xs[k]\<close> for an array of objects: \<open>None\<close> stands for the
  \<^verbatim>\<open>undefined\<close> read past the end.
\<close>

definition elem_at :: "'a list \<Rightarrow> nat \<Rightarrow> 'a option" where
  "elem_at xs k = (if k < length xs then Some (xs ! k) else None)"

record box =
  startPoint :: point
  endPoint :: point
  palmLandmarks :: "point list option"

text \<open>The fields the constructor of \<^verbatim>\<open>HandPipeline\<close> sets, the two detectors apart.\<close>

record pipeline =
  inputSize :: jsnum
  regionsOfInterest :: "box option list"
  runsWithoutHandDetector :: int
  skipFrames :: int
  detectedHands :: nat

definition UPDATE_REGION_OF_INTEREST_IOU_THRESHOLD :: jsnum where
  "UPDATE_REGION_OF_INTEREST_IOU_THRESHOLD = Fin 0.8"

definition PALM_BOX_SHIFT_VECTOR :: point where
  "PALM_BOX_SHIFT_VECTOR = [Fin 0, Fin (- 0.4)]"

definition PALM_BOX_ENLARGE_FACTOR :: jsnum where
  "PALM_BOX_ENLARGE_FACTOR = Fin 3"

definition HAND_BOX_SHIFT_VECTOR :: point where
  "HAND_BOX_SHIFT_VECTOR = [Fin 0, Fin (- 0.1)]"

definition HAND_BOX_ENLARGE_FACTOR :: jsnum where
  "HAND_BOX_ENLARGE_FACTOR = Fin 1.65"

definition PALM_LANDMARK_IDS :: "nat list" where
  "PALM_LANDMARK_IDS = [0, 5, 9, 13, 17, 1, 2]"

definition PALM_LANDMARKS_INDEX_OF_PALM_BASE :: nat where
  "PALM_LANDMARKS_INDEX_OF_PALM_BASE = 0"

definition PALM_LANDMARKS_INDEX_OF_MIDDLE_FINGER_BASE :: nat where
  "PALM_LANDMARKS_INDEX_OF_MIDDLE_FINGER_BASE = 2"

section \<open>calculateLandmarksBoundingBox and updateRegionsOfInterest\<close>

definition calculateLandmarksBoundingBox :: "point list \<Rightarrow> box" where
  "calculateLandmarksBoundingBox landmarks =
     (let xs = map (\<lambda>d. idx d 0) landmarks;
          ys = map (\<lambda>d. idx d 1) landmarks
      in \<lparr>startPoint = [Math_min xs, Math_min ys],
          endPoint = [Math_max xs, Math_max ys],
          palmLandmarks = None\<rparr>)"

text \<open>
  The value of \<^verbatim>\<open>iou\<close> that \<^verbatim>\<open>updateRegionsOfInterest\<close> computes when the slot holds a
  previous box (lines 178 to 189), term by term as the source writes it: the previous
  box's area takes its height from \<^verbatim>\<open>previousBoxEndY - boxStartY\<close>.
\<close>

definition regionIou :: "box \<Rightarrow> box \<Rightarrow> jsnum" where
  "regionIou newBox previousBox =
     (let boxStartX = idx (startPoint newBox) 0;
          boxStartY = idx (startPoint newBox) 1;
          boxEndX = idx (endPoint newBox) 0;
          boxEndY = idx (endPoint newBox) 1;
          previousBoxStartX = idx (startPoint previousBox) 0;
          previousBoxStartY = idx (startPoint previousBox) 1;
          previousBoxEndX = idx (endPoint previousBox) 0;
          previousBoxEndY = idx (endPoint previousBox) 1;
          xStartMax = Math_max [boxStartX, previousBoxStartX];
          yStartMax = Math_max [boxStartY, previousBoxStartY];
          xEndMin = Math_min [boxEndX, previousBoxEndX];
          yEndMin = Math_min [boxEndY, previousBoxEndY];
          intersection = js_mul (js_sub xEndMin xStartMax) (js_sub yEndMin yStartMax);
          boxArea = js_mul (js_sub boxEndX boxStartX) (js_sub boxEndY boxStartY);
          previousBoxArea =
            js_mul (js_sub previousBoxEndX previousBoxStartX) (js_sub previousBoxEndY boxStartY)
      in js_div intersection (js_sub (js_add boxArea previousBoxArea) intersection))"

text \<open>
  \<^verbatim>\<open>xs[i] = v\<close>: inside the array the slot is overwritten, past its end the array grows
  and the slots in between stay empty.
\<close>

definition js_store :: "'a option list \<Rightarrow> nat \<Rightarrow> 'a option \<Rightarrow> 'a option list" where
  "js_store xs i v =
     (if i < length xs then xs[i := v] else xs @ replicate (i - length xs) None @ [v])"

text \<open>
  A slot is \<open>None\<close> when the source reads \<^verbatim>\<open>null\<close> or \<^verbatim>\<open>undefined\<close> there. A box
  always has a \<^verbatim>\<open>startPoint\<close>, so the second half of the test of line 177 is true of
  every \<open>Some\<close> slot.
\<close>

definition slotIou :: "box option \<Rightarrow> box \<Rightarrow> jsnum" where
  "slotIou previousBox newBox =
     (case previousBox of None \<Rightarrow> Fin 0 | Some pb \<Rightarrow> regionIou newBox pb)"

definition updateRegionsOfInterest :: "pipeline \<Rightarrow> box \<Rightarrow> nat \<Rightarrow> pipeline" where
  "updateRegionsOfInterest this newBox i =
     (let previousBox = (case elem_at (regionsOfInterest this) i of None \<Rightarrow> None | Some s \<Rightarrow> s);
          iou = slotIou previousBox newBox
      in this\<lparr>regionsOfInterest :=
           js_store (regionsOfInterest this) i
             (if js_gt iou UPDATE_REGION_OF_INTEREST_IOU_THRESHOLD then previousBox
              else Some newBox)\<rparr>)"

text \<open>
  The intersection over union as the specification words it: the area of the
  intersection divided by the area of the union, each box's area from its own corners,
  and 0 when the boxes do not overlap or a box has no positive area. It is stated on
  boxes with finite corners and is what \<open>regionIou\<close> is compared with.
\<close>

definition iou_spec :: "real \<times> real \<Rightarrow> real \<times> real \<Rightarrow> real \<times> real \<Rightarrow> real \<times> real \<Rightarrow> real" where
  "iou_spec startA endA startB endB =
     (let areaA = (fst endA - fst startA) * (snd endA - snd startA);
          areaB = (fst endB - fst startB) * (snd endB - snd startB);
          w = min (fst endA) (fst endB) - max (fst startA) (fst startB);
          h = min (snd endA) (snd endB) - max (snd startA) (snd startB)
      in if w \<le> 0 \<or> h \<le> 0 \<or> areaA \<le> 0 \<or> areaB \<le> 0 then 0
         else w * h / (areaA + areaB - w * h))"

section \<open>The collaborators\<close>

text \<open>
  \<^verbatim>\<open>./box\<close>, \<^verbatim>\<open>./util\<close>, the two detectors and the tensor library are not part of the
  file under study. They are taken as parameters: one record holds every function of
  theirs the pipeline calls, over a type \<open>'img\<close> of image tensors. \<open>predict\<close> stands for
  \<^verbatim>\<open>meshDetector.predict\<close> followed by the two reads of its result: the confidence
  \<^verbatim>\<open>confidence.dataSync()[0]\<close> and the rows \<^verbatim>\<open>tf.reshape(keypoints, [-1, 3]).arraySync()\<close>.
  An argument that the source reads from an array by index is passed as an option, \<open>None\<close>
  for \<^verbatim>\<open>undefined\<close>. Disposing a tensor is recorded for the input image only.
\<close>

record config =
  config_skipFrames :: int
  maxHands :: int
  minConfidence :: jsnum

record 'img collaborators =
  estimateHandBounds :: "'img \<Rightarrow> config \<Rightarrow> box list"
  predict :: "'img \<Rightarrow> jsnum \<times> point list"
  computeRotation :: "point option \<Rightarrow> point option \<Rightarrow> jsnum"
  buildRotationMatrix :: "jsnum \<Rightarrow> point \<Rightarrow> point list"
  invertTransformMatrix :: "point list \<Rightarrow> point list"
  rotatePoint :: "point \<Rightarrow> point list \<Rightarrow> point"
  dot :: "point \<Rightarrow> point option \<Rightarrow> jsnum"
  getBoxSize :: "box \<Rightarrow> point"
  getBoxCenter :: "box \<Rightarrow> point"
  enlargeBox :: "box \<Rightarrow> jsnum \<Rightarrow> box"
  squarifyBox :: "box \<Rightarrow> box"
  shiftBox :: "box \<Rightarrow> point \<Rightarrow> box"
  cutBoxFromImageAndResize :: "box \<Rightarrow> 'img \<Rightarrow> point \<Rightarrow> 'img"
  rotateWithOffset :: "'img \<Rightarrow> jsnum \<Rightarrow> jsnum \<Rightarrow> point \<Rightarrow> 'img"
  tensorDiv :: "'img \<Rightarrow> jsnum \<Rightarrow> 'img"
  imageShape :: "'img \<Rightarrow> point"

section \<open>The geometry of the pipeline\<close>

datatype error = TypeError

definition getBoxForPalmLandmarks :: "'img collaborators \<Rightarrow> point list \<Rightarrow> point list \<Rightarrow> box" where
  "getBoxForPalmLandmarks env palmLandmarks' rotationMatrix =
     (let rotatedPalmLandmarks =
            map (\<lambda>coord. rotatePoint env (coord @ [Fin 1]) rotationMatrix) palmLandmarks';
          boxAroundPalm = calculateLandmarksBoundingBox rotatedPalmLandmarks
      in enlargeBox env
           (squarifyBox env (shiftBox env boxAroundPalm PALM_BOX_SHIFT_VECTOR))
           PALM_BOX_ENLARGE_FACTOR)"

text \<open>
  The loop of \<^verbatim>\<open>getBoxForHandLandmarks\<close>: \<^verbatim>\<open>landmarks[k].slice(0, 2)\<close> for each palm
  landmark id, a TypeError at the first id past the end of \<^verbatim>\<open>landmarks\<close>.
\<close>

fun slicePalmLandmarks :: "point list \<Rightarrow> nat list \<Rightarrow> error + point list" where
  "slicePalmLandmarks landmarks' [] = Inr []"
| "slicePalmLandmarks landmarks' (k # ks) =
     (case elem_at landmarks' k of
        None \<Rightarrow> Inl TypeError
      | Some d \<Rightarrow>
          (case slicePalmLandmarks landmarks' ks of
             Inl e \<Rightarrow> Inl e
           | Inr ps \<Rightarrow> Inr (take 2 d # ps)))"

definition getBoxForHandLandmarks :: "'img collaborators \<Rightarrow> point list \<Rightarrow> error + box" where
  "getBoxForHandLandmarks env landmarks' =
     (let boundingBox' = calculateLandmarksBoundingBox landmarks';
          boxAroundHand =
            enlargeBox env
              (squarifyBox env (shiftBox env boundingBox' HAND_BOX_SHIFT_VECTOR))
              HAND_BOX_ENLARGE_FACTOR
      in case slicePalmLandmarks landmarks' PALM_LANDMARK_IDS of
           Inl e \<Rightarrow> Inl e
         | Inr ps \<Rightarrow> Inr (boxAroundHand\<lparr>palmLandmarks := Some ps\<rparr>))"

definition transformRawCoords ::
  "'img collaborators \<Rightarrow> pipeline \<Rightarrow> point list \<Rightarrow> box \<Rightarrow> jsnum \<Rightarrow> point list \<Rightarrow> point list" where
  "transformRawCoords env this rawCoords box2 angle rotationMatrix =
     (let boxSize = getBoxSize env box2;
          scaleFactor =
            [js_div (idx boxSize 0) (inputSize this), js_div (idx boxSize 1) (inputSize this)];
          coordsScaled =
            map (\<lambda>coord.
                  [js_mul (idx scaleFactor 0) (js_sub (idx coord 0) (js_div (inputSize this) (Fin 2))),
                   js_mul (idx scaleFactor 1) (js_sub (idx coord 1) (js_div (inputSize this) (Fin 2))),
                   idx coord 2])
              rawCoords;
          coordsRotationMatrix = buildRotationMatrix env angle [Fin 0, Fin 0];
          coordsRotated =
            map (\<lambda>coord. rotatePoint env coord coordsRotationMatrix @ [idx coord 2]) coordsScaled;
          inverseRotationMatrix = invertTransformMatrix env rotationMatrix;
          boxCenter = getBoxCenter env box2 @ [Fin 1];
          originalBoxCenter =
            [dot env boxCenter (elem_at inverseRotationMatrix 0),
             dot env boxCenter (elem_at inverseRotationMatrix 1)]
      in map (\<lambda>coord.
               [js_add (idx coord 0) (idx originalBoxCenter 0),
                js_add (idx coord 1) (idx originalBoxCenter 1),
                idx coord 2])
           coordsRotated)"

section \<open>estimateHands\<close>

record bounds =
  topLeft :: point
  bottomRight :: point

record hand =
  landmarks :: "point list"
  handInViewConfidence :: jsnum
  boundingBox :: bounds

text \<open>
  What the loop body has in hand for one slot once the confidence is read (lines 115 to
  129), under the names of its local variables.
\<close>

record inference =
  angle :: jsnum
  rotationMatrix :: "point list"
  newBox :: box
  confidenceValue :: jsnum
  rawCoords :: "point list"

text \<open>Reading \<^verbatim>\<open>palmLandmarks[0]\<close> of a box without palm landmarks throws.\<close>

definition inferSlot ::
  "'img collaborators \<Rightarrow> pipeline \<Rightarrow> 'img \<Rightarrow> bool \<Rightarrow> box \<Rightarrow> error + inference" where
  "inferSlot env this image' useFreshBox currentBox =
     (case palmLandmarks currentBox of
        None \<Rightarrow> Inl TypeError
      | Some pl \<Rightarrow>
          (let angle' =
                 computeRotation env (elem_at pl PALM_LANDMARKS_INDEX_OF_PALM_BASE)
                   (elem_at pl PALM_LANDMARKS_INDEX_OF_MIDDLE_FINGER_BASE);
               palmCenter = getBoxCenter env currentBox;
               palmCenterNormalized =
                 [js_div (idx palmCenter 0) (idx (imageShape env image') 2),
                  js_div (idx palmCenter 1) (idx (imageShape env image') 1)];
               rotatedImage = rotateWithOffset env image' angle' (Fin 0) palmCenterNormalized;
               rotationMatrix' = buildRotationMatrix env (js_neg angle') palmCenter;
               newBox' =
                 (if useFreshBox then getBoxForPalmLandmarks env pl rotationMatrix'
                  else currentBox);
               croppedInput =
                 cutBoxFromImageAndResize env newBox' rotatedImage [inputSize this, inputSize this];
               handImage = tensorDiv env croppedInput (Fin 255);
               prediction = predict env handImage
           in Inr \<lparr>angle = angle', rotationMatrix = rotationMatrix', newBox = newBox',
                   confidenceValue = fst prediction, rawCoords = snd prediction\<rparr>))"

text \<open>
  The rest of the loop body (lines 130 to 158): a result whose confidence reaches
  \<^verbatim>\<open>config.minConfidence\<close> updates the slot and yields one hand, any other yields none.
\<close>

definition acceptSlot ::
  "'img collaborators \<Rightarrow> pipeline \<Rightarrow> config \<Rightarrow> nat \<Rightarrow> inference \<Rightarrow> error + pipeline \<times> hand list" where
  "acceptSlot env this cfg i res =
     (if js_ge (confidenceValue res) (minConfidence cfg) then
        (let coords =
               transformRawCoords env this (rawCoords res) (newBox res) (angle res)
                 (rotationMatrix res)
         in case getBoxForHandLandmarks env coords of
              Inl e \<Rightarrow> Inl e
            | Inr nextBoundingBox \<Rightarrow>
                Inr (updateRegionsOfInterest this nextBoundingBox i,
                     [\<lparr>landmarks = coords,
                       handInViewConfidence = confidenceValue res,
                       boundingBox = \<lparr>topLeft = startPoint nextBoundingBox,
                                      bottomRight = endPoint nextBoundingBox\<rparr>\<rparr>]))
      else Inr (this, []))"

text \<open>
  One run of \<^verbatim>\<open>meshDetector.predict\<close>, as a call leaves it on record: the slot, the box
  the slot held when the loop reached it, and the confidence that was read.
\<close>

record meshRun =
  slot :: nat
  held :: box
  confidence :: jsnum

text \<open>
  The loop \<^verbatim>\<open>for (const i in this.regionsOfInterest)\<close> over the indices it still has to
  visit. It carries the pipeline, the runs of the mesh detector and the hands pushed so
  far; a throw ends it with the pipeline as it is then.
\<close>

fun slotsLoop ::
  "'img collaborators \<Rightarrow> 'img \<Rightarrow> config \<Rightarrow> bool \<Rightarrow> nat list \<Rightarrow> pipeline \<Rightarrow> meshRun list
     \<Rightarrow> hand list \<Rightarrow> pipeline \<times> meshRun list \<times> (error + hand list)" where
  "slotsLoop env image' cfg useFreshBox [] this runs hands = (this, runs, Inr hands)"
| "slotsLoop env image' cfg useFreshBox (i # rest) this runs hands =
     (case (case elem_at (regionsOfInterest this) i of None \<Rightarrow> None | Some s \<Rightarrow> s) of
        None \<Rightarrow> slotsLoop env image' cfg useFreshBox rest this runs hands
      | Some currentBox \<Rightarrow>
          (case inferSlot env this image' useFreshBox currentBox of
             Inl e \<Rightarrow> (this, runs, Inl e)
           | Inr res \<Rightarrow>
               (case acceptSlot env this cfg i res of
                  Inl e \<Rightarrow>
                    (this,
                     runs @ [\<lparr>slot = i, held = currentBox, confidence = confidenceValue res\<rparr>],
                     Inl e)
                | Inr (this', hs) \<Rightarrow>
                    slotsLoop env image' cfg useFreshBox rest this'
                      (runs @ [\<lparr>slot = i, held = currentBox, confidence = confidenceValue res\<rparr>])
                      (hands @ hs))))"

text \<open>
  What one call leaves behind: the pipeline after it, what it returned (\<open>Inl\<close> a throw,
  \<open>Inr None\<close> for \<^verbatim>\<open>null\<close>), whether \<^verbatim>\<open>boundingBoxDetector.estimateHandBounds\<close> ran,
  whether \<^verbatim>\<open>image.dispose()\<close> ran, and the runs of the mesh detector.
\<close>

record outcome =
  after :: pipeline
  returned :: "error + hand list option"
  detectorRan :: bool
  imageDisposed :: bool
  meshRuns :: "meshRun list"

definition finishHands :: "bool \<Rightarrow> pipeline \<times> meshRun list \<times> (error + hand list) \<Rightarrow> outcome" where
  "finishHands called r =
     (case r of (this, runs, r') \<Rightarrow>
        (case r' of
           Inl e \<Rightarrow>
             \<lparr>after = this, returned = Inl e, detectorRan = called, imageDisposed = False,
              meshRuns = runs\<rparr>
         | Inr hands \<Rightarrow>
             \<lparr>after = this\<lparr>detectedHands := length hands\<rparr>, returned = Inr (Some hands),
              detectorRan = called, imageDisposed = False, meshRuns = runs\<rparr>))"

text \<open>
  \<^verbatim>\<open>estimateHands\<close> itself. \<open>useFreshBox0\<close> is \<^verbatim>\<open>useFreshBox\<close> as line 91 sets it and
  \<open>useFreshBox\<close> its value after line 96; \<open>boundingBoxPredictions\<close> is \<open>None\<close> while the
  detector has not run. \<open>map Some\<close> is the loop of lines 104 to 106, which pushes every
  prediction onto the emptied region list, and the slots loop visits the indices of the
  region list as it is when the loop starts.
\<close>

definition estimateHands :: "'img collaborators \<Rightarrow> pipeline \<Rightarrow> 'img \<Rightarrow> config \<Rightarrow> outcome" where
  "estimateHands env this0 image' cfg =
     (let this = this0\<lparr>skipFrames := config_skipFrames cfg\<rparr>;
          useFreshBox0 =
            (detectedHands this = 0 \<or> detectedHands this \<noteq> length (regionsOfInterest this));
          callDetector = (useFreshBox0 \<or> runsWithoutHandDetector this > skipFrames this);
          boundingBoxPredictions =
            (if callDetector then Some (estimateHandBounds env image' cfg) else None);
          useFreshBox =
            (useFreshBox0 \<or>
             (maxHands cfg > 1 \<and>
              (case boundingBoxPredictions of
                 None \<Rightarrow> False
               | Some bs \<Rightarrow> length bs > 0 \<and> length bs \<noteq> detectedHands this)));
          noHands =
            \<lparr>after = this\<lparr>regionsOfInterest := [], detectedHands := 0\<rparr>,
             returned = Inr None, detectorRan = callDetector, imageDisposed = True,
             meshRuns = []\<rparr>
      in if useFreshBox then
           (case boundingBoxPredictions of
              None \<Rightarrow> noHands
            | Some [] \<Rightarrow> noHands
            | Some (b # bs) \<Rightarrow>
                finishHands callDetector
                  (slotsLoop env image' cfg True [0..<length (b # bs)]
                     (this\<lparr>regionsOfInterest := map Some (b # bs), runsWithoutHandDetector := 0\<rparr>)
                     [] []))
         else
           finishHands callDetector
             (slotsLoop env image' cfg False [0..<length (regionsOfInterest this)]
                (this\<lparr>runsWithoutHandDetector := runsWithoutHandDetector this + 1\<rparr>)
                [] []))"

section \<open>A scripted scene\<close>

text \<open>
  Concrete collaborators to run the pipeline on. An image is a scene: the hands in view,
  each with the box the palm detector reports for it and the confidence the mesh detector
  gives on a crop at that box. Angles are 0, matrices are the identity, and shifting,
  squaring and enlarging leave a box as it is; the 18 key points are two corners and the
  centre of the square of side \<open>inputSize = 2\<close>, so that a tracked box maps to itself.
\<close>

type_synonym scene = "(box \<times> jsnum) list"

definition identityMatrix :: "point list" where
  "identityMatrix = [[Fin 1, Fin 0, Fin 0], [Fin 0, Fin 1, Fin 0], [Fin 0, Fin 0, Fin 1]]"

definition sceneKeypoints :: "point list" where
  "sceneKeypoints =
     [[Fin 0, Fin 0, Fin 5], [Fin 2, Fin 2, Fin 7], [Fin 1, Fin 1, Fin 6],
      [Fin 1, Fin 1, Fin 6], [Fin 1, Fin 1, Fin 6], [Fin 1, Fin 1, Fin 6],
      [Fin 1, Fin 1, Fin 6], [Fin 1, Fin 1, Fin 6], [Fin 1, Fin 1, Fin 6],
      [Fin 1, Fin 1, Fin 6], [Fin 1, Fin 1, Fin 6], [Fin 1, Fin 1, Fin 6],
      [Fin 1, Fin 1, Fin 6], [Fin 1, Fin 1, Fin 6], [Fin 1, Fin 1, Fin 6],
      [Fin 1, Fin 1, Fin 6], [Fin 1, Fin 1, Fin 6], [Fin 1, Fin 1, Fin 6]]"

definition sceneEnv :: "scene collaborators" where
  "sceneEnv =
     \<lparr>estimateHandBounds = (\<lambda>img cfg. map fst img),
      predict = (\<lambda>img. (case img of [] \<Rightarrow> Fin 0 | h # _ \<Rightarrow> snd h, sceneKeypoints)),
      computeRotation = (\<lambda>a b. Fin 0),
      buildRotationMatrix = (\<lambda>angle pivot. identityMatrix),
      invertTransformMatrix = (\<lambda>m. m),
      rotatePoint = (\<lambda>p m. take 2 p),
      dot = (\<lambda>p r. case r of
                      None \<Rightarrow> NaN
                    | Some r' \<Rightarrow> foldl js_add (Fin 0) (map (\<lambda>(a, b). js_mul a b) (zip p r'))),
      getBoxSize = (\<lambda>b. [js_sub (idx (endPoint b) 0) (idx (startPoint b) 0),
                          js_sub (idx (endPoint b) 1) (idx (startPoint b) 1)]),
      getBoxCenter = (\<lambda>b.
        [js_add (idx (startPoint b) 0)
           (js_div (js_sub (idx (endPoint b) 0) (idx (startPoint b) 0)) (Fin 2)),
         js_add (idx (startPoint b) 1)
           (js_div (js_sub (idx (endPoint b) 1) (idx (startPoint b) 1)) (Fin 2))]),
      enlargeBox = (\<lambda>b f. b),
      squarifyBox = (\<lambda>b. b),
      shiftBox = (\<lambda>b v. b),
      cutBoxFromImageAndResize = (\<lambda>b img size.
        filter (\<lambda>h. startPoint (fst h) = startPoint b \<and> endPoint (fst h) = endPoint b) img),
      rotateWithOffset = (\<lambda>img angle fill center. img),
      tensorDiv = (\<lambda>img d. img),
      imageShape = (\<lambda>img. [Fin 1, Fin 100, Fin 100, Fin 3])\<rparr>"

definition palmAt :: "real \<Rightarrow> real \<Rightarrow> real \<Rightarrow> real \<Rightarrow> box" where
  "palmAt x0 y0 x1 y1 =
     \<lparr>startPoint = [Fin x0, Fin y0], endPoint = [Fin x1, Fin y1],
      palmLandmarks = Some [[Fin x0, Fin y0], [Fin x1, Fin y1], [Fin x1, Fin y1]]\<rparr>"

definition freshPipeline :: pipeline where
  "freshPipeline =
     \<lparr>inputSize = Fin 2, regionsOfInterest = [], runsWithoutHandDetector = 0,
      skipFrames = 0, detectedHands = 0\<rparr>"

definition sceneConfig :: config where
  "sceneConfig = \<lparr>config_skipFrames = 5, maxHands = 1, minConfidence = Fin 0.5\<rparr>"

definition twoHandsConfig :: config where
  "twoHandsConfig = \<lparr>config_skipFrames = 5, maxHands = 2, minConfidence = Fin 0.5\<rparr>"

definition oneHand :: scene where
  "oneHand = [(palmAt 10 10 50 50, Fin 0.9)]"

definition twoHands :: scene where
  "twoHands = [(palmAt 10 10 50 50, Fin 0.9), (palmAt 60 60 90 90, Fin 0.9)]"

definition faintHand :: scene where
  "faintHand = [(palmAt 10 10 50 50, Fin 0.3)]"

definition movedHand :: scene where
  "movedHand = [(palmAt 60 60 90 90, Fin 0.9)]"

definition brightAndFaint :: scene where
  "brightAndFaint = [(palmAt 10 10 50 50, Fin 0.9), (palmAt 60 60 90 90, Fin 0.3)]"

text \<open>The hand the pipeline reports for the bright hand of these scenes.\<close>

definition brightHand :: hand where
  "brightHand =
     \<lparr>landmarks =
        [[Fin 10, Fin 10, Fin 5], [Fin 50, Fin 50, Fin 7], [Fin 30, Fin 30, Fin 6],
         [Fin 30, Fin 30, Fin 6], [Fin 30, Fin 30, Fin 6], [Fin 30, Fin 30, Fin 6],
         [Fin 30, Fin 30, Fin 6], [Fin 30, Fin 30, Fin 6], [Fin 30, Fin 30, Fin 6],
         [Fin 30, Fin 30, Fin 6], [Fin 30, Fin 30, Fin 6], [Fin 30, Fin 30, Fin 6],
         [Fin 30, Fin 30, Fin 6], [Fin 30, Fin 30, Fin 6], [Fin 30, Fin 30, Fin 6],
         [Fin 30, Fin 30, Fin 6], [Fin 30, Fin 30, Fin 6], [Fin 30, Fin 30, Fin 6]],
      handInViewConfidence = Fin 0.9,
      boundingBox = \<lparr>topLeft = [Fin 10, Fin 10], bottomRight = [Fin 50, Fin 50]\<rparr>\<rparr>"

text \<open>The pipeline while it tracks that one hand, \<open>n\<close> calls after the last reset.\<close>

definition tracking :: "int \<Rightarrow> pipeline" where
  "tracking n =
     \<lparr>inputSize = Fin 2, regionsOfInterest = [Some (palmAt 10 10 50 50)],
      runsWithoutHandDetector = n, skipFrames = 5, detectedHands = 1\<rparr>"

section \<open>Notions the properties are stated with\<close>

text \<open>The invariant of a box: \<^verbatim>\<open>startPoint <= endPoint\<close> in both components.\<close>

definition boxOrdered :: "box \<Rightarrow> bool" where
  "boxOrdered b =
     (js_le (idx (startPoint b) 0) (idx (endPoint b) 0) \<and>
      js_le (idx (startPoint b) 1) (idx (endPoint b) 1))"

text \<open>
  Successive calls on one pipeline, one image per frame: for each frame, whether the
  detector ran and the value of \<^verbatim>\<open>runsWithoutHandDetector\<close> after the call.
\<close>

fun detectorTrace ::
  "'img collaborators \<Rightarrow> config \<Rightarrow> pipeline \<Rightarrow> 'img list \<Rightarrow> (bool \<times> int) list" where
  "detectorTrace env cfg this [] = []"
| "detectorTrace env cfg this (frame # frames) =
     (let out = estimateHands env this frame cfg
      in (detectorRan out, runsWithoutHandDetector (after out))
         # detectorTrace env cfg (after out) frames)"

section \<open>Running the scripted scene\<close>

lemmas scene_eval =
  estimateHands_def finishHands_def inferSlot_def acceptSlot_def transformRawCoords_def
  getBoxForHandLandmarks_def getBoxForPalmLandmarks_def calculateLandmarksBoundingBox_def
  updateRegionsOfInterest_def slotIou_def regionIou_def js_store_def elem_at_def idx_def
  Math_max_def Math_min_def js_max2_def js_min2_def js_sub_def sceneEnv_def sceneKeypoints_def
  identityMatrix_def palmAt_def freshPipeline_def sceneConfig_def twoHandsConfig_def
  PALM_LANDMARK_IDS_def PALM_LANDMARKS_INDEX_OF_PALM_BASE_def
  PALM_LANDMARKS_INDEX_OF_MIDDLE_FINGER_BASE_def HAND_BOX_SHIFT_VECTOR_def
  HAND_BOX_ENLARGE_FACTOR_def PALM_BOX_SHIFT_VECTOR_def PALM_BOX_ENLARGE_FACTOR_def
  UPDATE_REGION_OF_INTEREST_IOU_THRESHOLD_def Let_def upt_rec

lemma first_frame_run:
  "detectorRan (estimateHands sceneEnv freshPipeline oneHand twoHandsConfig) \<and>
   after (estimateHands sceneEnv freshPipeline oneHand twoHandsConfig) = tracking 0"
  by (simp add: scene_eval tracking_def oneHand_def)

lemma tracking_frame:
  "detectorRan (estimateHands sceneEnv (tracking n) oneHand twoHandsConfig) = (5 < n) \<and>
   after (estimateHands sceneEnv (tracking n) oneHand twoHandsConfig) = tracking (n + 1)"
  by (simp add: scene_eval tracking_def oneHand_def)

lemma tracking_runs: "runsWithoutHandDetector (tracking n) = n"
  by (simp add: tracking_def)

lemma bright_and_faint_run:
  "estimateHands sceneEnv freshPipeline brightAndFaint twoHandsConfig =
     \<lparr>after =
        \<lparr>inputSize = Fin 2,
         regionsOfInterest = [Some (palmAt 10 10 50 50), Some (palmAt 60 60 90 90)],
         runsWithoutHandDetector = 0, skipFrames = 5, detectedHands = 1\<rparr>,
      returned = Inr (Some [brightHand]), detectorRan = True, imageDisposed = False,
      meshRuns =
        [\<lparr>slot = 0, held = palmAt 10 10 50 50, confidence = Fin 0.9\<rparr>,
         \<lparr>slot = 1, held = palmAt 60 60 90 90, confidence = Fin 0.3\<rparr>]\<rparr>"
  by (simp add: scene_eval brightAndFaint_def brightHand_def)

lemma faint_hand_run:
  "estimateHands sceneEnv freshPipeline faintHand sceneConfig =
     \<lparr>after =
        \<lparr>inputSize = Fin 2, regionsOfInterest = [Some (palmAt 10 10 50 50)],
         runsWithoutHandDetector = 0, skipFrames = 5, detectedHands = 0\<rparr>,
      returned = Inr (Some []), detectorRan = True, imageDisposed = False,
      meshRuns = [\<lparr>slot = 0, held = palmAt 10 10 50 50, confidence = Fin 0.3\<rparr>]\<rparr>"
  by (simp add: scene_eval faintHand_def)

section \<open>What one slot and one loop do to the region list\<close>

lemma update_stores:
  assumes "i < length (regionsOfInterest this)"
  shows "regionsOfInterest (updateRegionsOfInterest this nb i) =
           (regionsOfInterest this)[i :=
              (if js_gt (slotIou (regionsOfInterest this ! i) nb)
                    UPDATE_REGION_OF_INTEREST_IOU_THRESHOLD
               then regionsOfInterest this ! i else Some nb)]"
  using assms by (simp add: updateRegionsOfInterest_def Let_def js_store_def elem_at_def)

lemma update_in_range:
  assumes "i < length (regionsOfInterest this)"
  shows "\<exists>v. regionsOfInterest (updateRegionsOfInterest this nb i) =
             (regionsOfInterest this)[i := Some v]"
proof (cases "js_gt (slotIou (regionsOfInterest this ! i) nb)
                UPDATE_REGION_OF_INTEREST_IOU_THRESHOLD")
  case True
  then obtain pb where pb: "regionsOfInterest this ! i = Some pb"
    by (cases "regionsOfInterest this ! i")
       (simp_all add: slotIou_def UPDATE_REGION_OF_INTEREST_IOU_THRESHOLD_def)
  have "regionsOfInterest (updateRegionsOfInterest this nb i) =
          (regionsOfInterest this)[i := Some pb]"
    using update_stores[OF assms, of nb] True pb by simp
  then show ?thesis ..
next
  case False
  have "regionsOfInterest (updateRegionsOfInterest this nb i) =
          (regionsOfInterest this)[i := Some nb]"
    using update_stores[OF assms, of nb] False by simp
  then show ?thesis ..
qed

lemma acceptSlot_Inr:
  assumes "acceptSlot env this cfg i res = Inr (this1, hs)"
  shows "if js_ge (confidenceValue res) (minConfidence cfg)
         then (\<exists>nb h. this1 = updateRegionsOfInterest this nb i \<and> hs = [h] \<and>
                 handInViewConfidence h = confidenceValue res)
         else this1 = this \<and> hs = []"
  using assms by (auto simp: acceptSlot_def Let_def split: if_splits sum.splits)

lemma slot_step:
  assumes acc: "acceptSlot env this cfg i res = Inr (this1, hs)"
    and i: "i < length (regionsOfInterest this)"
    and cb: "regionsOfInterest this ! i = Some cb"
  shows "length (regionsOfInterest this1) = length (regionsOfInterest this)"
    and "\<And>j. j \<noteq> i \<Longrightarrow> regionsOfInterest this1 ! j = regionsOfInterest this ! j"
    and "regionsOfInterest this1 ! i \<noteq> None"
    and "js_ge (confidenceValue res) (minConfidence cfg) \<Longrightarrow>
           \<exists>h. hs = [h] \<and> handInViewConfidence h = confidenceValue res"
    and "\<not> js_ge (confidenceValue res) (minConfidence cfg) \<Longrightarrow> hs = [] \<and> this1 = this"
proof -
  note a = acceptSlot_Inr[OF acc]
  have "\<exists>v. regionsOfInterest this1 = (regionsOfInterest this)[i := Some v]"
  proof (cases "js_ge (confidenceValue res) (minConfidence cfg)")
    case True
    with a obtain nb where "this1 = updateRegionsOfInterest this nb i" by auto
    then show ?thesis using update_in_range[OF i] by simp
  next
    case False
    with a have "this1 = this" by simp
    then show ?thesis using cb i by (metis list_update_id)
  qed
  then obtain v where v: "regionsOfInterest this1 = (regionsOfInterest this)[i := Some v]" ..
  show "length (regionsOfInterest this1) = length (regionsOfInterest this)" by (simp add: v)
  show "\<And>j. j \<noteq> i \<Longrightarrow> regionsOfInterest this1 ! j = regionsOfInterest this ! j" by (simp add: v)
  show "regionsOfInterest this1 ! i \<noteq> None" using i by (simp add: v)
  show "js_ge (confidenceValue res) (minConfidence cfg) \<Longrightarrow>
           \<exists>h. hs = [h] \<and> handInViewConfidence h = confidenceValue res"
    using a by auto
  show "\<not> js_ge (confidenceValue res) (minConfidence cfg) \<Longrightarrow> hs = [] \<and> this1 = this"
    using a by auto
qed

lemma slotsLoop_length:
  "\<forall>i\<in>set is. i < length (regionsOfInterest this) \<Longrightarrow>
   length (regionsOfInterest (fst (slotsLoop env img cfg fresh is this runs hands))) =
   length (regionsOfInterest this)"
proof (induction "is" arbitrary: this runs hands)
  case Nil
  then show ?case by simp
next
  case (Cons i rest)
  have i: "i < length (regionsOfInterest this)" using Cons.prems by simp
  show ?case
  proof (cases "regionsOfInterest this ! i")
    case None
    then show ?thesis using Cons i by (simp add: elem_at_def)
  next
    case (Some cb)
    show ?thesis
    proof (cases "inferSlot env this img fresh cb")
      case (Inl e)
      then show ?thesis using Some i by (simp add: elem_at_def)
    next
      case (Inr res)
      show ?thesis
      proof (cases "acceptSlot env this cfg i res")
        case (Inl e)
        then show ?thesis using Some Inr i by (simp add: elem_at_def)
      next
        case inr: (Inr p)
        obtain this1 hs where p: "p = (this1, hs)" by (cases p)
        have len: "length (regionsOfInterest this1) = length (regionsOfInterest this)"
          using slot_step(1)[OF inr[unfolded p] i Some] .
        have "\<forall>j\<in>set rest. j < length (regionsOfInterest this1)"
          using Cons.prems len by simp
        from Cons.IH[OF this] show ?thesis
          using Some Inr inr p i len by (simp add: elem_at_def)
      qed
    qed
  qed
qed

lemma slotsLoop_completed:
  "slotsLoop env img cfg fresh is this runs hands = (this', runs', Inr hands') \<Longrightarrow>
   distinct is \<Longrightarrow> \<forall>i\<in>set is. i < length (regionsOfInterest this) \<Longrightarrow>
   length (regionsOfInterest this') = length (regionsOfInterest this) \<and>
   (\<forall>j. j \<notin> set is \<longrightarrow> regionsOfInterest this' ! j = regionsOfInterest this ! j) \<and>
   (\<forall>j < length (regionsOfInterest this).
       (regionsOfInterest this' ! j = None) = (regionsOfInterest this ! j = None)) \<and>
   (\<exists>new hs. runs' = runs @ new \<and> hands' = hands @ hs \<and>
       map slot new = filter (\<lambda>i. regionsOfInterest this ! i \<noteq> None) is \<and>
       map handInViewConfidence hs =
         filter (\<lambda>c. js_ge c (minConfidence cfg)) (map confidence new) \<and>
       (\<forall>r\<in>set new. regionsOfInterest this ! slot r = Some (held r) \<and>
          (\<not> js_ge (confidence r) (minConfidence cfg) \<longrightarrow>
             regionsOfInterest this' ! slot r = Some (held r))))"
proof (induction "is" arbitrary: this runs hands)
  case Nil
  then show ?case by simp
next
  case (Cons i rest)
  have i: "i < length (regionsOfInterest this)" using Cons.prems by simp
  have inotin: "i \<notin> set rest" and drest: "distinct rest" using Cons.prems by simp_all
  show ?case
  proof (cases "regionsOfInterest this ! i")
    case None
    have run: "slotsLoop env img cfg fresh rest this runs hands = (this', runs', Inr hands')"
      using Cons.prems(1) None i by (simp add: elem_at_def)
    have "\<forall>j\<in>set rest. j < length (regionsOfInterest this)" using Cons.prems by simp
    from Cons.IH[OF run drest this] obtain new hs where
      len: "length (regionsOfInterest this') = length (regionsOfInterest this)"
      and same: "\<forall>j. j \<notin> set rest \<longrightarrow> regionsOfInterest this' ! j = regionsOfInterest this ! j"
      and none: "\<forall>j < length (regionsOfInterest this).
         (regionsOfInterest this' ! j = None) = (regionsOfInterest this ! j = None)"
      and new: "runs' = runs @ new" "hands' = hands @ hs"
        "map slot new = filter (\<lambda>i. regionsOfInterest this ! i \<noteq> None) rest"
        "map handInViewConfidence hs =
           filter (\<lambda>c. js_ge c (minConfidence cfg)) (map confidence new)"
        "\<forall>r\<in>set new. regionsOfInterest this ! slot r = Some (held r) \<and>
          (\<not> js_ge (confidence r) (minConfidence cfg) \<longrightarrow>
             regionsOfInterest this' ! slot r = Some (held r))"
      by blast
    show ?thesis
      apply (intro conjI)
         apply (rule len)
        using same apply simp
       apply (rule none)
      apply (rule exI[of _ new], rule exI[of _ hs])
      using new None by simp
  next
    case (Some cb)
    obtain res where res: "inferSlot env this img fresh cb = Inr res"
      using Cons.prems(1) Some i by (cases "inferSlot env this img fresh cb") (simp_all add: elem_at_def)
    obtain this1 hs1 where acc: "acceptSlot env this cfg i res = Inr (this1, hs1)"
      using Cons.prems(1) Some i res
      by (cases "acceptSlot env this cfg i res") (auto simp: elem_at_def)
    let ?r0 = "\<lparr>slot = i, held = cb, confidence = confidenceValue res\<rparr>"
    have run: "slotsLoop env img cfg fresh rest this1 (runs @ [?r0]) (hands @ hs1) =
        (this', runs', Inr hands')"
      using Cons.prems(1) Some i res acc by (simp add: elem_at_def)
    note st = slot_step[OF acc i Some]
    have rng: "\<forall>j\<in>set rest. j < length (regionsOfInterest this1)"
      using Cons.prems st(1) by simp
    from Cons.IH[OF run drest rng] obtain new hs where
      len: "length (regionsOfInterest this') = length (regionsOfInterest this1)"
      and same: "\<forall>j. j \<notin> set rest \<longrightarrow> regionsOfInterest this' ! j = regionsOfInterest this1 ! j"
      and none: "\<forall>j < length (regionsOfInterest this1).
         (regionsOfInterest this' ! j = None) = (regionsOfInterest this1 ! j = None)"
      and new: "runs' = (runs @ [?r0]) @ new" "hands' = (hands @ hs1) @ hs"
        "map slot new = filter (\<lambda>i. regionsOfInterest this1 ! i \<noteq> None) rest"
        "map handInViewConfidence hs =
           filter (\<lambda>c. js_ge c (minConfidence cfg)) (map confidence new)"
        "\<forall>r\<in>set new. regionsOfInterest this1 ! slot r = Some (held r) \<and>
          (\<not> js_ge (confidence r) (minConfidence cfg) \<longrightarrow>
             regionsOfInterest this' ! slot r = Some (held r))"
      by blast
    have rest_same: "regionsOfInterest this1 ! j = regionsOfInterest this ! j"
      if "j \<in> set rest" for j
    proof -
      from that inotin have "j \<noteq> i" by auto
      then show ?thesis by (rule st(2))
    qed
    have c1: "length (regionsOfInterest this') = length (regionsOfInterest this)"
      using len st(1) by simp
    have c2: "\<forall>j. j \<notin> set (i # rest) \<longrightarrow> regionsOfInterest this' ! j = regionsOfInterest this ! j"
      using same st(2) by auto
    have c3: "\<forall>j < length (regionsOfInterest this).
       (regionsOfInterest this' ! j = None) = (regionsOfInterest this ! j = None)"
    proof (intro allI impI)
      fix j assume j: "j < length (regionsOfInterest this)"
      show "(regionsOfInterest this' ! j = None) = (regionsOfInterest this ! j = None)"
      proof (cases "j = i")
        case True
        then show ?thesis using none st(1,3) Some i by auto
      next
        case False
        then show ?thesis using none st(1,2) j by auto
      qed
    qed
    have slots: "map slot (?r0 # new) = filter (\<lambda>i. regionsOfInterest this ! i \<noteq> None) (i # rest)"
      using new(3) Some rest_same by (auto intro: filter_cong)
    have confs: "map handInViewConfidence (hs1 @ hs) =
         filter (\<lambda>c. js_ge c (minConfidence cfg)) (map confidence (?r0 # new))"
      using new(4) st(4,5) by (cases "js_ge (confidenceValue res) (minConfidence cfg)") auto
    have in_rest: "\<And>r. r \<in> set new \<Longrightarrow> slot r \<in> set rest"
    proof -
      fix r assume "r \<in> set new"
      then have "slot r \<in> set (map slot new)" by simp
      then show "slot r \<in> set rest" unfolding new(3) by simp
    qed
    have holds: "\<forall>r\<in>set (?r0 # new). regionsOfInterest this ! slot r = Some (held r) \<and>
          (\<not> js_ge (confidence r) (minConfidence cfg) \<longrightarrow>
             regionsOfInterest this' ! slot r = Some (held r))"
    proof
      fix r assume r: "r \<in> set (?r0 # new)"
      show "regionsOfInterest this ! slot r = Some (held r) \<and>
          (\<not> js_ge (confidence r) (minConfidence cfg) \<longrightarrow>
             regionsOfInterest this' ! slot r = Some (held r))"
      proof (cases "r = ?r0")
        case True
        have "\<not> js_ge (confidenceValue res) (minConfidence cfg) \<Longrightarrow>
              regionsOfInterest this' ! i = Some cb"
          using st(5) same inotin Some by auto
        then show ?thesis using True Some by auto
      next
        case False
        then have rn: "r \<in> set new" using r by simp
        then show ?thesis using new(5) rest_same[OF in_rest[OF rn]] by auto
      qed
    qed
    show ?thesis
      apply (intro conjI)
         apply (rule c1)
        apply (rule c2)
       apply (rule c3)
      apply (rule exI[of _ "?r0 # new"], rule exI[of _ "hs1 @ hs"])
      using new(1,2) slots confs holds by simp
  qed
qed

section \<open>The paths of estimateHands\<close>

lemma finishHands_completed:
  assumes "returned (finishHands c r) = Inr (Some hands)"
  shows "\<exists>this'. r = (this', meshRuns (finishHands c r), Inr hands) \<and>
           after (finishHands c r) = this'\<lparr>detectedHands := length hands\<rparr>"
  using assms by (auto simp: finishHands_def split: prod.splits sum.splits)

lemma finishHands_regions:
  "regionsOfInterest (after (finishHands c r)) = regionsOfInterest (fst r)"
  by (auto simp: finishHands_def split: prod.splits sum.splits)

lemma estimateHands_cases:
  fixes env :: "'img collaborators"
  obtains
    (none) "estimateHands env this img cfg =
       \<lparr>after = this\<lparr>skipFrames := config_skipFrames cfg, regionsOfInterest := [],
                      detectedHands := 0\<rparr>,
        returned = Inr None,
        detectorRan = (detectedHands this = 0 \<or>
          detectedHands this \<noteq> length (regionsOfInterest this) \<or>
          runsWithoutHandDetector this > config_skipFrames cfg),
        imageDisposed = True, meshRuns = []\<rparr>"
  | (fresh) "estimateHandBounds env img cfg \<noteq> []"
      "detectedHands this = 0 \<or> detectedHands this \<noteq> length (regionsOfInterest this) \<or>
       runsWithoutHandDetector this > config_skipFrames cfg"
      "estimateHands env this img cfg =
         finishHands True
           (slotsLoop env img cfg True [0..<length (estimateHandBounds env img cfg)]
             (this\<lparr>skipFrames := config_skipFrames cfg,
                   regionsOfInterest := map Some (estimateHandBounds env img cfg),
                   runsWithoutHandDetector := 0\<rparr>) [] [])"
  | (track) "detectedHands this \<noteq> 0"
      "detectedHands this = length (regionsOfInterest this)"
      "estimateHands env this img cfg =
         finishHands (runsWithoutHandDetector this > config_skipFrames cfg)
           (slotsLoop env img cfg False [0..<length (regionsOfInterest this)]
             (this\<lparr>skipFrames := config_skipFrames cfg,
                   runsWithoutHandDetector := runsWithoutHandDetector this + 1\<rparr>) [] [])"
proof (cases "detectedHands this = 0 \<or> detectedHands this \<noteq> length (regionsOfInterest this)")
  case True
  show ?thesis
  proof (cases "estimateHandBounds env img cfg")
    case Nil
    with True have "estimateHands env this img cfg =
       \<lparr>after = this\<lparr>skipFrames := config_skipFrames cfg, regionsOfInterest := [],
                      detectedHands := 0\<rparr>,
        returned = Inr None,
        detectorRan = (detectedHands this = 0 \<or>
          detectedHands this \<noteq> length (regionsOfInterest this) \<or>
          runsWithoutHandDetector this > config_skipFrames cfg),
        imageDisposed = True, meshRuns = []\<rparr>"
      by (auto simp: estimateHands_def Let_def)
    then show ?thesis by (rule none)
  next
    case (Cons b bs)
    with True have "estimateHands env this img cfg =
         finishHands True
           (slotsLoop env img cfg True [0..<length (estimateHandBounds env img cfg)]
             (this\<lparr>skipFrames := config_skipFrames cfg,
                   regionsOfInterest := map Some (estimateHandBounds env img cfg),
                   runsWithoutHandDetector := 0\<rparr>) [] [])"
      by (auto simp: estimateHands_def Let_def)
    with Cons True show ?thesis by (intro fresh) auto
  qed
next
  case False
  then have stable: "detectedHands this \<noteq> 0"
    "detectedHands this = length (regionsOfInterest this)" by auto
  show ?thesis
  proof (cases "runsWithoutHandDetector this > config_skipFrames cfg \<and> maxHands cfg > 1 \<and>
      estimateHandBounds env img cfg \<noteq> [] \<and>
      length (estimateHandBounds env img cfg) \<noteq> detectedHands this")
    case replace: True
    then obtain b bs where bs: "estimateHandBounds env img cfg = b # bs"
      by (cases "estimateHandBounds env img cfg") auto
    have "estimateHands env this img cfg =
         finishHands True
           (slotsLoop env img cfg True [0..<length (estimateHandBounds env img cfg)]
             (this\<lparr>skipFrames := config_skipFrames cfg,
                   regionsOfInterest := map Some (estimateHandBounds env img cfg),
                   runsWithoutHandDetector := 0\<rparr>) [] [])"
      using replace stable bs by (simp add: estimateHands_def Let_def)
    with bs replace show ?thesis by (intro fresh) auto
  next
    case keep: False
    have "estimateHands env this img cfg =
         finishHands (runsWithoutHandDetector this > config_skipFrames cfg)
           (slotsLoop env img cfg False [0..<length (regionsOfInterest this)]
             (this\<lparr>skipFrames := config_skipFrames cfg,
                   runsWithoutHandDetector := runsWithoutHandDetector this + 1\<rparr>) [] [])"
      using keep stable by (auto simp: estimateHands_def Let_def)
    with stable show ?thesis by (intro track)
  qed
qed

lemma finishHands_detectorRan: "detectorRan (finishHands c r) = c"
  by (simp add: finishHands_def split: prod.splits sum.splits)

lemma detectorRan_estimateHands:
  "detectorRan (estimateHands env this img cfg) =
     (detectedHands this = 0 \<or> detectedHands this \<noteq> length (regionsOfInterest this)
      \<or> runsWithoutHandDetector this > config_skipFrames cfg)"
  by (cases rule: estimateHands_cases[where env=env and this=this and img=img and cfg=cfg])
     (auto simp: finishHands_detectorRan)

lemma estimateHands_completed:
  assumes "returned (estimateHands env this img cfg) = Inr (Some hands)"
  shows "\<exists>fresh start this'.
           slotsLoop env img cfg fresh [0..<length (regionsOfInterest start)] start [] [] =
             (this', meshRuns (estimateHands env this img cfg), Inr hands) \<and>
           after (estimateHands env this img cfg) = this'\<lparr>detectedHands := length hands\<rparr>"
proof (cases rule: estimateHands_cases[where env=env and this=this and img=img and cfg=cfg])
  case none
  then show ?thesis using assms by simp
next
  case fresh
  let ?start = "this\<lparr>skipFrames := config_skipFrames cfg,
                   regionsOfInterest := map Some (estimateHandBounds env img cfg),
                   runsWithoutHandDetector := 0\<rparr>"
  from assms fresh(3) finishHands_completed
  obtain this' where
    "slotsLoop env img cfg True [0..<length (estimateHandBounds env img cfg)] ?start [] [] =
       (this', meshRuns (estimateHands env this img cfg), Inr hands)"
    "after (estimateHands env this img cfg) = this'\<lparr>detectedHands := length hands\<rparr>"
    by metis
  then show ?thesis
    by (intro exI[of _ True] exI[of _ ?start] exI[of _ this']) simp
next
  case track
  let ?track = "this\<lparr>skipFrames := config_skipFrames cfg,
                   runsWithoutHandDetector := runsWithoutHandDetector this + 1\<rparr>"
  from assms track(3) finishHands_completed
  obtain this' where
    "slotsLoop env img cfg False [0..<length (regionsOfInterest this)] ?track [] [] =
       (this', meshRuns (estimateHands env this img cfg), Inr hands)"
    "after (estimateHands env this img cfg) = this'\<lparr>detectedHands := length hands\<rparr>"
    by metis
  then show ?thesis
    by (intro exI[of _ False] exI[of _ ?track] exI[of _ this']) simp
qed

lemma completed_call:
  assumes "returned (estimateHands env this img cfg) = Inr (Some hands)"
  shows "map slot (meshRuns (estimateHands env this img cfg)) =
           filter (\<lambda>i. regionsOfInterest (after (estimateHands env this img cfg)) ! i \<noteq> None)
             [0..<length (regionsOfInterest (after (estimateHands env this img cfg)))]"
    and "map handInViewConfidence hands =
           filter (\<lambda>c. js_ge c (minConfidence cfg))
             (map confidence (meshRuns (estimateHands env this img cfg)))"
    and "\<forall>r\<in>set (meshRuns (estimateHands env this img cfg)).
           slot r < length (regionsOfInterest (after (estimateHands env this img cfg))) \<and>
           (\<not> js_ge (confidence r) (minConfidence cfg) \<longrightarrow>
            regionsOfInterest (after (estimateHands env this img cfg)) ! slot r = Some (held r))"
    and "detectedHands (after (estimateHands env this img cfg)) = length hands"
proof -
  let ?out = "estimateHands env this img cfg"
  from estimateHands_completed[OF assms] obtain fresh start this' where
    loop: "slotsLoop env img cfg fresh [0..<length (regionsOfInterest start)] start [] [] =
             (this', meshRuns ?out, Inr hands)"
    and aft: "after ?out = this'\<lparr>detectedHands := length hands\<rparr>"
    by blast
  have regs: "regionsOfInterest (after ?out) = regionsOfInterest this'" by (simp add: aft)
  from slotsLoop_completed[OF loop] obtain new hs where
    len: "length (regionsOfInterest this') = length (regionsOfInterest start)"
    and none: "\<forall>j < length (regionsOfInterest start).
         (regionsOfInterest this' ! j = None) = (regionsOfInterest start ! j = None)"
    and new: "meshRuns ?out = [] @ new" "hands = [] @ hs"
      "map slot new = filter (\<lambda>i. regionsOfInterest start ! i \<noteq> None)
          [0..<length (regionsOfInterest start)]"
      "map handInViewConfidence hs =
         filter (\<lambda>c. js_ge c (minConfidence cfg)) (map confidence new)"
      "\<forall>r\<in>set new. regionsOfInterest start ! slot r = Some (held r) \<and>
          (\<not> js_ge (confidence r) (minConfidence cfg) \<longrightarrow>
             regionsOfInterest this' ! slot r = Some (held r))"
    by auto
  have "filter (\<lambda>i. regionsOfInterest start ! i \<noteq> None) [0..<length (regionsOfInterest start)] =
        filter (\<lambda>i. regionsOfInterest this' ! i \<noteq> None) [0..<length (regionsOfInterest start)]"
    using none by (intro filter_cong) auto
  then show "map slot (meshRuns ?out) =
           filter (\<lambda>i. regionsOfInterest (after ?out) ! i \<noteq> None)
             [0..<length (regionsOfInterest (after ?out))]"
    using new(1,3) len regs by simp
  show "map handInViewConfidence hands =
           filter (\<lambda>c. js_ge c (minConfidence cfg)) (map confidence (meshRuns ?out))"
    using new(1,2,4) by simp
  have inr: "slot r < length (regionsOfInterest start)" if "r \<in> set new" for r
  proof -
    from that have "slot r \<in> set (map slot new)" by simp
    then show ?thesis unfolding new(3) by simp
  qed
  show "\<forall>r\<in>set (meshRuns ?out).
           slot r < length (regionsOfInterest (after ?out)) \<and>
           (\<not> js_ge (confidence r) (minConfidence cfg) \<longrightarrow>
            regionsOfInterest (after ?out) ! slot r = Some (held r))"
    using new(1,5) inr len regs by auto
  show "detectedHands (after ?out) = length hands" by (simp add: aft)
qed

lemma finishHands_meshRuns: "meshRuns (finishHands c r) = fst (snd r)"
  by (auto simp: finishHands_def split: prod.splits sum.splits)

lemma finishHands_returned_not_null: "returned (finishHands c r) \<noteq> Inr None"
  by (auto simp: finishHands_def split: prod.splits sum.splits)

lemma estimateHands_paths:
  "estimateHands env this img cfg =
     (if detectedHands this = 0 \<or> detectedHands this \<noteq> length (regionsOfInterest this) \<or>
         (config_skipFrames cfg < runsWithoutHandDetector this \<and> 1 < maxHands cfg \<and>
          estimateHandBounds env img cfg \<noteq> [] \<and>
          length (estimateHandBounds env img cfg) \<noteq> detectedHands this)
      then
        (if estimateHandBounds env img cfg = [] then
           \<lparr>after = this\<lparr>skipFrames := config_skipFrames cfg, regionsOfInterest := [],
                          detectedHands := 0\<rparr>,
            returned = Inr None, detectorRan = True, imageDisposed = True, meshRuns = []\<rparr>
         else
           finishHands True
             (slotsLoop env img cfg True [0..<length (estimateHandBounds env img cfg)]
               (this\<lparr>skipFrames := config_skipFrames cfg,
                     regionsOfInterest := map Some (estimateHandBounds env img cfg),
                     runsWithoutHandDetector := 0\<rparr>) [] []))
      else
        finishHands (config_skipFrames cfg < runsWithoutHandDetector this)
          (slotsLoop env img cfg False [0..<length (regionsOfInterest this)]
            (this\<lparr>skipFrames := config_skipFrames cfg,
                  runsWithoutHandDetector := runsWithoutHandDetector this + 1\<rparr>) [] []))"
proof (cases "detectedHands this = 0 \<or> detectedHands this \<noteq> length (regionsOfInterest this)")
  case True
  then show ?thesis
    by (cases "estimateHandBounds env img cfg") (auto simp: estimateHands_def Let_def)
next
  case False
  then have stable: "detectedHands this \<noteq> 0"
    "detectedHands this = length (regionsOfInterest this)" by auto
  show ?thesis
  proof (cases "config_skipFrames cfg < runsWithoutHandDetector this \<and> 1 < maxHands cfg \<and>
      estimateHandBounds env img cfg \<noteq> [] \<and>
      length (estimateHandBounds env img cfg) \<noteq> detectedHands this")
    case replace: True
    then obtain b bs where bs: "estimateHandBounds env img cfg = b # bs"
      by (cases "estimateHandBounds env img cfg") auto
    show ?thesis
      using replace stable bs by (simp add: estimateHands_def Let_def)
  next
    case keep: False
    show ?thesis
      using keep stable by (auto simp: estimateHands_def Let_def)
  qed
qed

lemma regions_after_length:
  "length (regionsOfInterest (after (estimateHands env this img cfg))) =
     (if detectedHands this = 0 \<or> detectedHands this \<noteq> length (regionsOfInterest this) \<or>
         (config_skipFrames cfg < runsWithoutHandDetector this \<and> 1 < maxHands cfg \<and>
          estimateHandBounds env img cfg \<noteq> [] \<and>
          length (estimateHandBounds env img cfg) \<noteq> detectedHands this)
      then length (estimateHandBounds env img cfg)
      else length (regionsOfInterest this))"
  by (subst estimateHands_paths) (simp add: finishHands_regions slotsLoop_length)

lemma slotsLoop_runs_held:
  "distinct is \<Longrightarrow> \<forall>i\<in>set is. i < length (regionsOfInterest this) \<Longrightarrow>
   \<exists>new. fst (snd (slotsLoop env img cfg fresh is this runs hands)) = runs @ new \<and>
     (\<forall>r\<in>set new. slot r \<in> set is \<and> regionsOfInterest this ! slot r = Some (held r))"
proof (induction "is" arbitrary: this runs hands)
  case Nil
  then show ?case by simp
next
  case (Cons i rest)
  have i: "i < length (regionsOfInterest this)" using Cons.prems by simp
  have inotin: "i \<notin> set rest" and drest: "distinct rest" using Cons.prems by simp_all
  have rng: "\<forall>j\<in>set rest. j < length (regionsOfInterest this)" using Cons.prems by simp
  show ?case
  proof (cases "regionsOfInterest this ! i")
    case None
    from Cons.IH[OF drest rng, of runs hands] obtain new where
      "fst (snd (slotsLoop env img cfg fresh rest this runs hands)) = runs @ new"
      "\<forall>r\<in>set new. slot r \<in> set rest \<and> regionsOfInterest this ! slot r = Some (held r)"
      by blast
    then show ?thesis using None i by (intro exI[of _ new]) (simp add: elem_at_def)
  next
    case (Some cb)
    show ?thesis
    proof (cases "inferSlot env this img fresh cb")
      case (Inl e)
      then show ?thesis using Some i by (intro exI[of _ "[]"]) (simp add: elem_at_def)
    next
      case (Inr res)
      let ?r0 = "\<lparr>slot = i, held = cb, confidence = confidenceValue res\<rparr>"
      show ?thesis
      proof (cases "acceptSlot env this cfg i res")
        case (Inl e)
        then show ?thesis using Some Inr i
          by (intro exI[of _ "[?r0]"]) (simp add: elem_at_def)
      next
        case inr: (Inr p)
        obtain this1 hs where p: "p = (this1, hs)" by (cases p)
        note st = slot_step[OF inr[unfolded p] i Some]
        have rng1: "\<forall>j\<in>set rest. j < length (regionsOfInterest this1)"
          using rng st(1) by simp
        from Cons.IH[OF drest rng1, of "runs @ [?r0]" "hands @ hs"] obtain new where
          new: "fst (snd (slotsLoop env img cfg fresh rest this1 (runs @ [?r0]) (hands @ hs))) =
                  (runs @ [?r0]) @ new"
            "\<forall>r\<in>set new. slot r \<in> set rest \<and> regionsOfInterest this1 ! slot r = Some (held r)"
          by blast
        have "\<forall>r\<in>set (?r0 # new). slot r \<in> set (i # rest) \<and>
            regionsOfInterest this ! slot r = Some (held r)"
        proof
          fix r assume r: "r \<in> set (?r0 # new)"
          show "slot r \<in> set (i # rest) \<and> regionsOfInterest this ! slot r = Some (held r)"
          proof (cases "r = ?r0")
            case True
            then show ?thesis using Some by simp
          next
            case False
            then have rn: "r \<in> set new" using r by simp
            then have a: "slot r \<in> set rest" "regionsOfInterest this1 ! slot r = Some (held r)"
              using new(2) by auto
            from a(1) inotin have "slot r \<noteq> i" by auto
            then have "regionsOfInterest this1 ! slot r = regionsOfInterest this ! slot r"
              by (rule st(2))
            with a show ?thesis by simp
          qed
        qed
        then show ?thesis using new(1) Some Inr inr p i
          by (intro exI[of _ "?r0 # new"]) (simp add: elem_at_def)
      qed
    qed
  qed
qed

lemma forced_pass:
  assumes "detectedHands this = 0 \<or> detectedHands this \<noteq> length (regionsOfInterest this)"
  shows "detectorRan (estimateHands env this img cfg)"
    and "length (regionsOfInterest (after (estimateHands env this img cfg))) =
           length (estimateHandBounds env img cfg)"
    and "(returned (estimateHands env this img cfg) = Inr None) =
           (estimateHandBounds env img cfg = [])"
    and "\<forall>r\<in>set (meshRuns (estimateHands env this img cfg)).
           slot r < length (estimateHandBounds env img cfg) \<and>
           held r = estimateHandBounds env img cfg ! slot r"
proof -
  show "detectorRan (estimateHands env this img cfg)"
    using assms by (auto simp: detectorRan_estimateHands)
  show "length (regionsOfInterest (after (estimateHands env this img cfg))) =
           length (estimateHandBounds env img cfg)"
    using assms by (auto simp: regions_after_length)
  show "(returned (estimateHands env this img cfg) = Inr None) =
           (estimateHandBounds env img cfg = [])"
    using assms by (subst estimateHands_paths) (auto simp: finishHands_returned_not_null)
  let ?bs = "estimateHandBounds env img cfg"
  let ?start = "this\<lparr>skipFrames := config_skipFrames cfg,
                     regionsOfInterest := map Some ?bs,
                     runsWithoutHandDetector := 0\<rparr>"
  have "\<exists>new. fst (snd (slotsLoop env img cfg True [0..<length ?bs] ?start [] [])) = [] @ new \<and>
     (\<forall>r\<in>set new. slot r \<in> set [0..<length ?bs] \<and>
        regionsOfInterest ?start ! slot r = Some (held r))"
    by (rule slotsLoop_runs_held) simp_all
  then have loop: "\<forall>r\<in>set (fst (snd (slotsLoop env img cfg True [0..<length ?bs] ?start [] []))).
      slot r < length ?bs \<and> held r = ?bs ! slot r"
    by auto
  show "\<forall>r\<in>set (meshRuns (estimateHands env this img cfg)).
           slot r < length ?bs \<and> held r = ?bs ! slot r"
  proof (cases "?bs = []")
    case True
    then show ?thesis using assms by (subst estimateHands_paths) auto
  next
    case False
    have "meshRuns (estimateHands env this img cfg) =
        fst (snd (slotsLoop env img cfg True [0..<length ?bs] ?start [] []))"
      using assms False by (subst estimateHands_paths) (auto simp: finishHands_meshRuns)
    then show ?thesis using loop by simp
  qed
qed

lemma drop_leaves_count_short:
  assumes "returned (estimateHands env this img cfg) = Inr (Some hands)"
    and "\<exists>x\<in>set (meshRuns (estimateHands env this img cfg)).
           \<not> js_ge (confidence x) (minConfidence cfg)"
  shows "detectedHands (after (estimateHands env this img cfg)) \<noteq>
           length (regionsOfInterest (after (estimateHands env this img cfg)))"
proof -
  let ?out = "estimateHands env this img cfg"
  note c = completed_call[OF assms(1)]
  have "length (meshRuns ?out) = length (map slot (meshRuns ?out))" by simp
  also have "\<dots> \<le> length [0..<length (regionsOfInterest (after ?out))]"
    unfolding c(1) by (rule length_filter_le)
  finally have runs: "length (meshRuns ?out) \<le> length (regionsOfInterest (after ?out))" by simp
  have hands: "length hands = length (filter (\<lambda>c. js_ge c (minConfidence cfg))
      (map confidence (meshRuns ?out)))"
    using arg_cong[OF c(2), of length] by simp
  from assms(2) have "\<exists>c\<in>set (map confidence (meshRuns ?out)). \<not> js_ge c (minConfidence cfg)"
    by auto
  then have "length hands < length (map confidence (meshRuns ?out))"
    unfolding hands by (metis length_filter_less)
  with runs c(4) show ?thesis by simp
qed

section \<open>The order of JavaScript numbers\<close>

lemma js_ge_trans: "js_ge a b \<Longrightarrow> js_ge b c \<Longrightarrow> js_ge a c"
  by (cases a; cases b; cases c) simp_all

lemma js_ge_total: "is_number a \<Longrightarrow> is_number b \<Longrightarrow> js_ge a b \<or> js_ge b a"
  by (cases a; cases b) auto

lemma js_ge_refl: "is_number a \<Longrightarrow> js_ge a a"
  by (cases a) simp_all

lemma foldl_js_min2:
  "is_number a \<Longrightarrow> \<forall>x\<in>set xs. is_number x \<Longrightarrow>
   is_number (foldl js_min2 a xs) \<and> js_ge a (foldl js_min2 a xs) \<and>
   (\<forall>x\<in>set xs. js_ge x (foldl js_min2 a xs))"
proof (induction xs arbitrary: a)
  case Nil
  then show ?case by (simp add: js_ge_refl)
next
  case (Cons y ys)
  let ?m = "js_min2 a y"
  have y: "is_number y" and ys: "\<forall>x\<in>set ys. is_number x" using Cons.prems by simp_all
  have m: "is_number ?m" "js_ge a ?m" "js_ge y ?m"
    using Cons.prems(1) y js_ge_total[of a y] by (auto simp: js_min2_def js_ge_refl)
  from Cons.IH[OF m(1) ys] have ih: "is_number (foldl js_min2 ?m ys)"
    "js_ge ?m (foldl js_min2 ?m ys)" "\<forall>x\<in>set ys. js_ge x (foldl js_min2 ?m ys)" by simp_all
  show ?case
    using ih m js_ge_trans[OF m(2) ih(2)] js_ge_trans[OF m(3) ih(2)] by simp
qed

lemma foldl_js_max2:
  "is_number a \<Longrightarrow> \<forall>x\<in>set xs. is_number x \<Longrightarrow>
   is_number (foldl js_max2 a xs) \<and> js_ge (foldl js_max2 a xs) a \<and>
   (\<forall>x\<in>set xs. js_ge (foldl js_max2 a xs) x)"
proof (induction xs arbitrary: a)
  case Nil
  then show ?case by (simp add: js_ge_refl)
next
  case (Cons y ys)
  let ?m = "js_max2 a y"
  have y: "is_number y" and ys: "\<forall>x\<in>set ys. is_number x" using Cons.prems by simp_all
  have m: "is_number ?m" "js_ge ?m a" "js_ge ?m y"
    using Cons.prems(1) y js_ge_total[of a y] by (auto simp: js_max2_def js_ge_refl)
  from Cons.IH[OF m(1) ys] have ih: "is_number (foldl js_max2 ?m ys)"
    "js_ge (foldl js_max2 ?m ys) ?m" "\<forall>x\<in>set ys. js_ge (foldl js_max2 ?m ys) x" by simp_all
  show ?case
    using ih m js_ge_trans[OF ih(2) m(2)] js_ge_trans[OF ih(2) m(3)] by simp
qed

lemma Math_min_le_Math_max:
  assumes "xs \<noteq> []" and "\<forall>x\<in>set xs. is_number x"
  shows "js_le (Math_min xs) (Math_max xs)"
proof -
  from assms(1) obtain x where x: "x \<in> set xs" by (cases xs) auto
  have "js_ge x (Math_min xs)"
    using foldl_js_min2[of PosInf xs] assms(2) x by (simp add: Math_min_def)
  moreover have "js_ge (Math_max xs) x"
    using foldl_js_max2[of NegInf xs] assms(2) x by (simp add: Math_max_def)
  ultimately show ?thesis unfolding js_le_def by (rule js_ge_trans[rotated])
qed

lemma idx_snoc: "length p = 2 \<Longrightarrow> idx (p @ [z]) 2 = z"
  by (simp add: idx_def nth_append)

section \<open>The properties\<close>

text \<open>
  Claim C1. The specification takes the IoU of the per-slot update to be the standard
  intersection over union, each box's area from its own corners. The source computes
  the previous box's area with the new box's \<^verbatim>\<open>boxStartY\<close> (line 188), so its value
  departs from the standard one as soon as the two boxes start at different heights:
  for the new box (0,0)-(20,20) over the previous box (0,3)-(20,20) it is 17/23, where
  the standard value is 17/20. The source has no overlap test either: for the disjoint
  boxes (0,0)-(10,10) and (20,20)-(30,30) it yields 1/3, not 0.
\<close>

theorem iou_departs_from_standard:
  "regionIou
     \<lparr>startPoint = [Fin 0, Fin 0], endPoint = [Fin 20, Fin 20], palmLandmarks = None\<rparr>
     \<lparr>startPoint = [Fin 0, Fin 3], endPoint = [Fin 20, Fin 20], palmLandmarks = None\<rparr>
     = Fin (17 / 23) \<and>
   iou_spec (0, 0) (20, 20) (0, 3) (20, 20) = 17 / 20 \<and>
   regionIou
     \<lparr>startPoint = [Fin 0, Fin 0], endPoint = [Fin 10, Fin 10], palmLandmarks = None\<rparr>
     \<lparr>startPoint = [Fin 20, Fin 20], endPoint = [Fin 30, Fin 30], palmLandmarks = None\<rparr>
     = Fin (1 / 3) \<and>
   iou_spec (0, 0) (10, 10) (20, 20) (30, 30) = 0"
  by (simp add: regionIou_def idx_def Math_max_def Math_min_def js_max2_def js_min2_def
        js_sub_def iou_spec_def)

text \<open>On one and the same box of positive area the slip cancels and the value is 1.\<close>

lemma regionIou_same_box:
  assumes "x0 < x1" "y0 < y1"
  shows "regionIou
           \<lparr>startPoint = [Fin x0, Fin y0], endPoint = [Fin x1, Fin y1], palmLandmarks = p\<rparr>
           \<lparr>startPoint = [Fin x0, Fin y0], endPoint = [Fin x1, Fin y1], palmLandmarks = q\<rparr>
         = Fin 1"
  using assms
  by (simp add: regionIou_def idx_def Math_max_def Math_min_def js_max2_def js_min2_def
        js_sub_def)

text \<open>
  Claim C2. A slot that holds a previous box keeps it when the IoU of the new and the
  previous box exceeds 0.8, and takes the new box otherwise. The gate itself is as
  stated (\<open>update_stores\<close>), but it compares the value of \<open>regionIou\<close>: the new box
  (0,0)-(20,20) and the previous box (0,3)-(20,20) have an IoU of 0.85, above the
  threshold, and the slot is overwritten with the new box all the same.
\<close>

theorem stable_box_replaced:
  "0.8 < iou_spec (0, 0) (20, 20) (0, 3) (20, 20) \<and>
   regionsOfInterest
     (updateRegionsOfInterest
        (freshPipeline\<lparr>regionsOfInterest :=
           [Some \<lparr>startPoint = [Fin 0, Fin 3], endPoint = [Fin 20, Fin 20],
                  palmLandmarks = None\<rparr>]\<rparr>)
        \<lparr>startPoint = [Fin 0, Fin 0], endPoint = [Fin 20, Fin 20], palmLandmarks = None\<rparr> 0)
   = [Some \<lparr>startPoint = [Fin 0, Fin 0], endPoint = [Fin 20, Fin 20], palmLandmarks = None\<rparr>]"
  by (simp add: scene_eval iou_spec_def)

text \<open>
  Claim C3. With \<^verbatim>\<open>skipFrames = 5\<close> and a tracked count that stays at one hand, the
  detector is to run on frame 1 and again on frame 7, the counter going back to 0 at
  each run. Nine frames of the same hand through the source give another schedule: the
  detector runs on frame 1, stays idle on frames 2 to 7, and runs on frame 8 and on
  frame 9; the counter reads 6 after frame 7 and is not reset by the runs of frames 8
  and 9, since line 107 is reached only when the region list is replaced.
\<close>

theorem detector_schedule_trace:
  "detectorTrace sceneEnv twoHandsConfig freshPipeline (replicate 9 oneHand) =
     [(True, 0), (False, 1), (False, 2), (False, 3), (False, 4), (False, 5), (False, 6),
      (True, 7), (True, 8)]"
  by (simp add: numeral_eq_Suc first_frame_run tracking_frame tracking_runs Let_def)

text \<open>
  Claim C4, as the source has it. \<^verbatim>\<open>estimateHands\<close> does not cut the detector's answer
  down to \<^verbatim>\<open>maxHands\<close>. A call replaces the region list when the detected count is 0 or
  differs from the length of the list, or when \<^verbatim>\<open>maxHands\<close> is above 1 and a periodic
  detector pass returns a non-empty answer whose count differs from the detected count;
  the number of tracked slots is then the number of boxes the detector returned, and it is
  unchanged by any other call. So with \<^verbatim>\<open>maxHands\<close> at 1 or below and a stable, non-zero
  tracked count, whatever the detector returns is ignored and the count stays as it was.
  A count within \<^verbatim>\<open>maxHands\<close> before a call is within \<^verbatim>\<open>maxHands\<close> after it exactly
  when the call does not replace the list or the answer has at most \<^verbatim>\<open>maxHands\<close> boxes.
\<close>

theorem tracked_slots_after_call:
  "length (regionsOfInterest (after (estimateHands env this img cfg))) =
     (if detectedHands this = 0 \<or> detectedHands this \<noteq> length (regionsOfInterest this) \<or>
         (config_skipFrames cfg < runsWithoutHandDetector this \<and> 1 < maxHands cfg \<and>
          estimateHandBounds env img cfg \<noteq> [] \<and>
          length (estimateHandBounds env img cfg) \<noteq> detectedHands this)
      then length (estimateHandBounds env img cfg)
      else length (regionsOfInterest this)) \<and>
   (detectedHands this \<noteq> 0 \<and> detectedHands this = length (regionsOfInterest this) \<and>
    maxHands cfg \<le> 1 \<longrightarrow>
      length (regionsOfInterest (after (estimateHands env this img cfg))) =
        length (regionsOfInterest this)) \<and>
   (int (length (regionsOfInterest this)) \<le> maxHands cfg \<longrightarrow>
      (int (length (regionsOfInterest (after (estimateHands env this img cfg)))) \<le> maxHands cfg) =
      (detectedHands this = 0 \<or> detectedHands this \<noteq> length (regionsOfInterest this) \<or>
         (config_skipFrames cfg < runsWithoutHandDetector this \<and> 1 < maxHands cfg \<and>
          estimateHandBounds env img cfg \<noteq> [] \<and>
          length (estimateHandBounds env img cfg) \<noteq> detectedHands this)
       \<longrightarrow> int (length (estimateHandBounds env img cfg)) \<le> maxHands cfg))"
  by (auto simp: regions_after_length)

theorem tracked_slots_after_call_witness:
  "maxHands sceneConfig = 1 \<and>
   length (estimateHandBounds sceneEnv twoHands sceneConfig) = 2 \<and>
   detectorRan (estimateHands sceneEnv (tracking 6) twoHands sceneConfig) \<and>
   length (regionsOfInterest (after (estimateHands sceneEnv (tracking 6) twoHands sceneConfig))) = 1 \<and>
   length (regionsOfInterest (after (estimateHands sceneEnv (tracking 6) twoHands twoHandsConfig))) = 2"
  using tracked_slots_after_call[of sceneEnv "tracking 6" twoHands sceneConfig]
    tracked_slots_after_call[of sceneEnv "tracking 6" twoHands twoHandsConfig]
  by (simp add: sceneEnv_def twoHands_def sceneConfig_def twoHandsConfig_def tracking_def
        detectorRan_estimateHands)

text \<open>
  The claim as it was stated fails on a first call: with \<^verbatim>\<open>maxHands = 1\<close> and a
  detector that returns two boxes, two slots are tracked.
\<close>

theorem fresh_pass_tracks_past_cap:
  "maxHands sceneConfig = 1 \<and>
   length (estimateHandBounds sceneEnv twoHands sceneConfig) = 2 \<and>
   length (regionsOfInterest (after (estimateHands sceneEnv freshPipeline twoHands sceneConfig)))
     = 2"
  by (simp add: scene_eval twoHands_def)

text \<open>
  Claim C5. When a forced fresh pass (the detected count is 0 or differs from the number
  of tracked regions) finds no region, the call empties the region list, sets the
  detected count to 0, disposes the input image and returns \<^verbatim>\<open>null\<close>; nothing is thrown
  and the mesh detector does not run. The counter \<^verbatim>\<open>runsWithoutHandDetector\<close> keeps its
  value: the next call does not read it, since a detected count of 0 forces the detector,
  and the first pass that finds a region sets it to 0.
\<close>

theorem no_hands_clears_state:
  assumes "detectedHands this = 0 \<or> detectedHands this \<noteq> length (regionsOfInterest this)"
    and "estimateHandBounds env img cfg = []"
  shows "estimateHands env this img cfg =
           \<lparr>after = this\<lparr>skipFrames := config_skipFrames cfg, regionsOfInterest := [],
                          detectedHands := 0\<rparr>,
            returned = Inr None, detectorRan = True, imageDisposed = True, meshRuns = []\<rparr>"
  using assms by (auto simp: estimateHands_def Let_def)

theorem no_hands_clears_state_witness:
  "detectedHands ((tracking 3)\<lparr>detectedHands := 0\<rparr>) = 0 \<and>
   estimateHandBounds sceneEnv [] sceneConfig = [] \<and>
   estimateHands sceneEnv ((tracking 3)\<lparr>detectedHands := 0\<rparr>) [] sceneConfig =
     \<lparr>after = \<lparr>inputSize = Fin 2, regionsOfInterest = [], runsWithoutHandDetector = 3,
                skipFrames = 5, detectedHands = 0\<rparr>,
      returned = Inr None, detectorRan = True, imageDisposed = True, meshRuns = []\<rparr>"
proof -
  have a: "detectedHands ((tracking 3)\<lparr>detectedHands := 0\<rparr>) = 0 \<or>
      detectedHands ((tracking 3)\<lparr>detectedHands := 0\<rparr>) \<noteq>
        length (regionsOfInterest ((tracking 3)\<lparr>detectedHands := 0\<rparr>))"
    by simp
  have b: "estimateHandBounds sceneEnv [] sceneConfig = []"
    by (simp add: sceneEnv_def)
  from no_hands_clears_state[OF a b] b show ?thesis
    by (simp add: tracking_def sceneConfig_def)
qed

text \<open>
  Claim C6, as the source has it. In a call that returns hands, the mesh detector runs
  once on every slot that holds a box, in order, and the hands returned are the runs
  whose confidence reaches \<^verbatim>\<open>config.minConfidence\<close>, with that confidence. A run below
  the threshold throws nothing, yields no hand and leaves the pipeline as it is, so the
  slot still holds its box when the call returns. Whenever a run was dropped, the next
  call, whatever its image and configuration, runs the detector and rebuilds the region
  list from its answer: the list then has one slot for each box of the answer, the call
  returns \<^verbatim>\<open>null\<close> exactly when the answer is empty, and every run of the mesh detector
  in that call is on the box the answer has at the run's slot.
\<close>

theorem low_confidence_dropped:
  assumes "returned (estimateHands env this img cfg) = Inr (Some hands)"
  shows "map slot (meshRuns (estimateHands env this img cfg)) =
           filter (\<lambda>i. regionsOfInterest (after (estimateHands env this img cfg)) ! i \<noteq> None)
             [0..<length (regionsOfInterest (after (estimateHands env this img cfg)))] \<and>
         map handInViewConfidence hands =
           filter (\<lambda>c. js_ge c (minConfidence cfg))
             (map confidence (meshRuns (estimateHands env this img cfg))) \<and>
         (\<forall>r\<in>set (meshRuns (estimateHands env this img cfg)).
            slot r < length (regionsOfInterest (after (estimateHands env this img cfg))) \<and>
            (\<not> js_ge (confidence r) (minConfidence cfg) \<longrightarrow>
             regionsOfInterest (after (estimateHands env this img cfg)) ! slot r
               = Some (held r))) \<and>
         (\<forall>p i res. \<not> js_ge (confidenceValue res) (minConfidence cfg) \<longrightarrow>
            acceptSlot env p cfg i res = Inr (p, [])) \<and>
         ((\<exists>r\<in>set (meshRuns (estimateHands env this img cfg)).
             \<not> js_ge (confidence r) (minConfidence cfg)) \<longrightarrow>
          (\<forall>img' cfg'.
             detectorRan (estimateHands env (after (estimateHands env this img cfg)) img' cfg') \<and>
             length (regionsOfInterest
               (after (estimateHands env (after (estimateHands env this img cfg)) img' cfg'))) =
               length (estimateHandBounds env img' cfg') \<and>
             (returned (estimateHands env (after (estimateHands env this img cfg)) img' cfg')
                = Inr None) = (estimateHandBounds env img' cfg' = []) \<and>
             (\<forall>r\<in>set (meshRuns
                  (estimateHands env (after (estimateHands env this img cfg)) img' cfg')).
                slot r < length (estimateHandBounds env img' cfg') \<and>
                held r = estimateHandBounds env img' cfg' ! slot r)))"
proof -
  have next_call: "detectorRan (estimateHands env (after (estimateHands env this img cfg)) img' cfg') \<and>
      length (regionsOfInterest
        (after (estimateHands env (after (estimateHands env this img cfg)) img' cfg'))) =
        length (estimateHandBounds env img' cfg') \<and>
      (returned (estimateHands env (after (estimateHands env this img cfg)) img' cfg')
         = Inr None) = (estimateHandBounds env img' cfg' = []) \<and>
      (\<forall>r\<in>set (meshRuns
           (estimateHands env (after (estimateHands env this img cfg)) img' cfg')).
         slot r < length (estimateHandBounds env img' cfg') \<and>
         held r = estimateHandBounds env img' cfg' ! slot r)"
    if d: "\<exists>r\<in>set (meshRuns (estimateHands env this img cfg)).
             \<not> js_ge (confidence r) (minConfidence cfg)" for img' cfg'
  proof -
    from drop_leaves_count_short[OF assms d]
    have f: "detectedHands (after (estimateHands env this img cfg)) = 0 \<or>
        detectedHands (after (estimateHands env this img cfg)) \<noteq>
          length (regionsOfInterest (after (estimateHands env this img cfg)))" ..
    show ?thesis
      using forced_pass[OF f, of env img' cfg'] by blast
  qed
  have low: "\<forall>p i res. \<not> js_ge (confidenceValue res) (minConfidence cfg) \<longrightarrow>
            acceptSlot env p cfg i res = Inr (p, [])"
    by (simp add: acceptSlot_def)
  from completed_call(1,2,3)[OF assms] low next_call show ?thesis
    by blast
qed

theorem low_confidence_dropped_witness:
  "returned (estimateHands sceneEnv freshPipeline brightAndFaint twoHandsConfig)
     = Inr (Some [brightHand]) \<and>
   map slot (meshRuns (estimateHands sceneEnv freshPipeline brightAndFaint twoHandsConfig))
     = [0, 1] \<and>
   map handInViewConfidence [brightHand] =
     filter (\<lambda>c. js_ge c (minConfidence twoHandsConfig))
       (map confidence (meshRuns (estimateHands sceneEnv freshPipeline brightAndFaint twoHandsConfig))) \<and>
   regionsOfInterest (after (estimateHands sceneEnv freshPipeline brightAndFaint twoHandsConfig)) ! 1
     = Some (palmAt 60 60 90 90) \<and>
   detectorRan (estimateHands sceneEnv
     (after (estimateHands sceneEnv freshPipeline brightAndFaint twoHandsConfig))
     movedHand twoHandsConfig) \<and>
   length (regionsOfInterest (after (estimateHands sceneEnv
     (after (estimateHands sceneEnv freshPipeline brightAndFaint twoHandsConfig))
     movedHand twoHandsConfig))) = 1"
proof -
  have h: "returned (estimateHands sceneEnv freshPipeline brightAndFaint twoHandsConfig)
     = Inr (Some [brightHand])"
    by (simp add: bright_and_faint_run)
  have d: "\<exists>x\<in>set (meshRuns (estimateHands sceneEnv freshPipeline brightAndFaint twoHandsConfig)).
      \<not> js_ge (confidence x) (minConfidence twoHandsConfig)"
    by (simp only: bright_and_faint_run) (simp add: twoHandsConfig_def)
  have n: "length (estimateHandBounds sceneEnv movedHand twoHandsConfig) = 1"
    by (simp add: sceneEnv_def movedHand_def)
  note t = low_confidence_dropped[OF h]
  from t have a: "map slot (meshRuns (estimateHands sceneEnv freshPipeline brightAndFaint twoHandsConfig)) =
      filter (\<lambda>i. regionsOfInterest
          (after (estimateHands sceneEnv freshPipeline brightAndFaint twoHandsConfig)) ! i \<noteq> None)
        [0..<length (regionsOfInterest
          (after (estimateHands sceneEnv freshPipeline brightAndFaint twoHandsConfig)))]"
    and b: "map handInViewConfidence [brightHand] =
     filter (\<lambda>c. js_ge c (minConfidence twoHandsConfig))
       (map confidence (meshRuns (estimateHands sceneEnv freshPipeline brightAndFaint twoHandsConfig)))"
    by blast+
  from t d
  have c: "detectorRan (estimateHands sceneEnv
     (after (estimateHands sceneEnv freshPipeline brightAndFaint twoHandsConfig))
     movedHand twoHandsConfig) \<and>
   length (regionsOfInterest (after (estimateHands sceneEnv
     (after (estimateHands sceneEnv freshPipeline brightAndFaint twoHandsConfig))
     movedHand twoHandsConfig))) = length (estimateHandBounds sceneEnv movedHand twoHandsConfig)"
    by blast
  have e: "map slot (meshRuns (estimateHands sceneEnv freshPipeline brightAndFaint twoHandsConfig))
     = [0, 1]"
    using a by (simp add: bright_and_faint_run upt_rec)
  have f: "regionsOfInterest
      (after (estimateHands sceneEnv freshPipeline brightAndFaint twoHandsConfig)) ! 1
     = Some (palmAt 60 60 90 90)"
    by (simp add: bright_and_faint_run)
  from h e b f c n show ?thesis by simp
qed

text \<open>
  The claim as it was stated adds that the slot, having stayed in the region list, is
  attempted again on the next frame. It is not: the detected count is then below the
  number of tracked regions, the next call starts with a detector pass and rebuilds the
  region list from its answer. Here a hand is dropped for its confidence of 0.3. When it
  has left the view on the next frame, the mesh detector does not run and the list is
  empty; when the detector reports it elsewhere, the mesh detector runs on that box, not
  on the one the slot held.
\<close>

theorem dropped_slot_not_retried:
  "meshRuns (estimateHands sceneEnv freshPipeline faintHand sceneConfig) =
     [\<lparr>slot = 0, held = palmAt 10 10 50 50, confidence = Fin 0.3\<rparr>] \<and>
   returned (estimateHands sceneEnv freshPipeline faintHand sceneConfig) = Inr (Some []) \<and>
   regionsOfInterest (after (estimateHands sceneEnv freshPipeline faintHand sceneConfig)) =
     [Some (palmAt 10 10 50 50)] \<and>
   meshRuns (estimateHands sceneEnv
       (after (estimateHands sceneEnv freshPipeline faintHand sceneConfig)) [] sceneConfig) = [] \<and>
   regionsOfInterest (after (estimateHands sceneEnv
       (after (estimateHands sceneEnv freshPipeline faintHand sceneConfig)) [] sceneConfig)) = [] \<and>
   meshRuns (estimateHands sceneEnv
       (after (estimateHands sceneEnv freshPipeline faintHand sceneConfig)) movedHand sceneConfig) =
     [\<lparr>slot = 0, held = palmAt 60 60 90 90, confidence = Fin 0.9\<rparr>]"
  by (simp add: faint_hand_run) (simp add: scene_eval movedHand_def)

text \<open>
  Claim C7. \<^verbatim>\<open>transformRawCoords\<close> returns one key point for each raw key point, with
  the third component of the raw key point unchanged; \<^verbatim>\<open>util.rotatePoint\<close> is taken to
  return the two components of the rotated point, as the specification describes it.
\<close>

theorem depth_passes_through:
  assumes "\<forall>p m. length p = 3 \<longrightarrow> length (rotatePoint env p m) = 2"
  shows "map (\<lambda>c. idx c 2) (transformRawCoords env this raw box2 ang rm) = map (\<lambda>c. idx c 2) raw \<and>
         length (transformRawCoords env this raw box2 ang rm) = length raw"
proof -
  have "idx (rotatePoint env [a, b, z] m @ [z]) 2 = z" for a b z m
    using assms by (intro idx_snoc) simp
  then show ?thesis
    by (simp add: transformRawCoords_def Let_def comp_def idx_def[of "[_, _, _]"])
qed

theorem depth_passes_through_witness:
  "map (\<lambda>c. idx c 2)
     (transformRawCoords sceneEnv freshPipeline sceneKeypoints (palmAt 10 10 50 50) (Fin 0)
        identityMatrix) =
   map (\<lambda>c. idx c 2) sceneKeypoints"
  using depth_passes_through[of sceneEnv freshPipeline sceneKeypoints "palmAt 10 10 50 50"
      "Fin 0" identityMatrix]
  by (simp add: sceneEnv_def)

text \<open>
  Claim C8. A pipeline whose detected count is 0 runs the bounding box detector on its
  next call, whatever the image, the configuration and the rest of its state, and the
  call works on the detector's answer: the region list ends with one slot for each box
  of the answer, the call returns \<^verbatim>\<open>null\<close> exactly when the answer is empty, and every
  run of the mesh detector is on the box the answer has at the run's slot.
\<close>

theorem forced_detection_when_none_detected:
  assumes "detectedHands this = 0"
  shows "detectorRan (estimateHands env this img cfg) \<and>
         length (regionsOfInterest (after (estimateHands env this img cfg))) =
           length (estimateHandBounds env img cfg) \<and>
         (returned (estimateHands env this img cfg) = Inr None) =
           (estimateHandBounds env img cfg = []) \<and>
         (\<forall>r\<in>set (meshRuns (estimateHands env this img cfg)).
            slot r < length (estimateHandBounds env img cfg) \<and>
            held r = estimateHandBounds env img cfg ! slot r)"
proof -
  from assms
  have f: "detectedHands this = 0 \<or> detectedHands this \<noteq> length (regionsOfInterest this)" ..
  show ?thesis
    using forced_pass[OF f, of env img cfg] by blast
qed

theorem forced_detection_when_none_detected_witness:
  "detectedHands ((tracking 2)\<lparr>detectedHands := 0\<rparr>) = 0 \<and>
   length (regionsOfInterest ((tracking 2)\<lparr>detectedHands := 0\<rparr>)) = 1 \<and>
   detectorRan (estimateHands sceneEnv ((tracking 2)\<lparr>detectedHands := 0\<rparr>) twoHands sceneConfig) \<and>
   length (regionsOfInterest
     (after (estimateHands sceneEnv ((tracking 2)\<lparr>detectedHands := 0\<rparr>) twoHands sceneConfig))) = 2 \<and>
   returned (estimateHands sceneEnv ((tracking 2)\<lparr>detectedHands := 0\<rparr>) twoHands sceneConfig)
     \<noteq> Inr None"
proof -
  have a: "detectedHands ((tracking 2)\<lparr>detectedHands := 0\<rparr>) = 0" by simp
  from forced_detection_when_none_detected[OF a, of sceneEnv twoHands sceneConfig] a
  show ?thesis
    by (simp add: sceneEnv_def twoHands_def tracking_def)
qed

text \<open>
  Claim C9, as the source has it. For a list of landmarks that is not empty and whose x
  and y components are all numbers, the box of \<^verbatim>\<open>calculateLandmarksBoundingBox\<close> has its
  start point below or at its end point in both components.
\<close>

theorem bounding_box_ordered:
  assumes "landmarks' \<noteq> []"
    and "\<forall>d\<in>set landmarks'. is_number (idx d 0) \<and> is_number (idx d 1)"
  shows "boxOrdered (calculateLandmarksBoundingBox landmarks')"
proof -
  have "js_le (Math_min (map (\<lambda>d. idx d 0) landmarks')) (Math_max (map (\<lambda>d. idx d 0) landmarks'))"
    using assms by (intro Math_min_le_Math_max) auto
  moreover
  have "js_le (Math_min (map (\<lambda>d. idx d 1) landmarks')) (Math_max (map (\<lambda>d. idx d 1) landmarks'))"
    using assms by (intro Math_min_le_Math_max) auto
  ultimately show ?thesis
    by (simp add: boxOrdered_def calculateLandmarksBoundingBox_def Let_def idx_def)
qed

theorem bounding_box_ordered_witness:
  "[[Fin 3, Fin 9, Fin 0], [Fin 7, Fin 2, Fin 1]] \<noteq> [] \<and>
   boxOrdered (calculateLandmarksBoundingBox [[Fin 3, Fin 9, Fin 0], [Fin 7, Fin 2, Fin 1]])"
  using bounding_box_ordered[of "[[Fin 3, Fin 9, Fin 0], [Fin 7, Fin 2, Fin 1]]"]
  by (simp add: idx_def)

text \<open>
  The claim as it was stated covers every list. For the empty list \<^verbatim>\<open>Math.min()\<close> is
  \<open>Infinity\<close> and \<^verbatim>\<open>Math.max()\<close> is \<open>-Infinity\<close>: the start point is above the end point.
\<close>

theorem empty_landmarks_box_unordered:
  "calculateLandmarksBoundingBox [] =
     \<lparr>startPoint = [PosInf, PosInf], endPoint = [NegInf, NegInf], palmLandmarks = None\<rparr> \<and>
   \<not> boxOrdered (calculateLandmarksBoundingBox [])"
  by (simp add: boxOrdered_def calculateLandmarksBoundingBox_def Math_min_def Math_max_def
        idx_def js_le_def)



end
